theory Spec2Isabelle
  imports Complex_Main "HOL-Library.Word"
begin

section \<open>Python values and library functions used by the clients\<close>

type_synonym byte = "8 word"

text \<open>
  Values produced by \<^verbatim>\<open>json.loads\<close>. Python's \<^verbatim>\<open>None\<close> and JSON's
  \<^verbatim>\<open>null\<close> are the same object, so \<open>JNull\<close> also stands for a returned
  \<^verbatim>\<open>None\<close>. A dict is an association list in insertion order, one entry per key,
  read with \<open>map_of\<close>. \<open>JFloat\<close> carries the value of a finite float.
\<close>

datatype json =
    JNull
  | JBool bool
  | JInt int
  | JFloat real
  | JStr string
  | JArr "json list"
  | JObj "(string \<times> json) list"

text \<open>
  The library functions \<^verbatim>\<open>bytes.decode('utf-8')\<close>, \<^verbatim>\<open>str.encode('utf-8')\<close>,
  \<^verbatim>\<open>json.loads\<close> and \<^verbatim>\<open>json.dumps\<close> are not part of the repository; the
  clients take them as a parameter. \<open>None\<close> is \<^verbatim>\<open>UnicodeDecodeError\<close> for
  \<open>decode\<close> and \<^verbatim>\<open>json.JSONDecodeError\<close> for \<open>loads\<close>.
\<close>

record codec =
  decode :: "byte list \<Rightarrow> string option"
  encode :: "string \<Rightarrow> byte list"
  loads :: "string \<Rightarrow> json option"
  dumps :: "json \<Rightarrow> string"

text \<open>\<^verbatim>\<open>int.from_bytes(bs, byteorder='big')\<close>\<close>

definition from_bytes_big :: "byte list \<Rightarrow> nat" where
  "from_bytes_big bs = foldl (\<lambda>acc b. acc * 256 + unat b) 0 bs"

text \<open>\<^verbatim>\<open>n.to_bytes(4, byteorder='big')\<close>; \<open>None\<close> is \<^verbatim>\<open>OverflowError\<close>.\<close>

definition to_bytes4_big :: "nat \<Rightarrow> byte list option" where
  "to_bytes4_big n =
     (if n < 2 ^ 32
      then Some [of_nat (n div 2 ^ 24), of_nat (n div 2 ^ 16), of_nat (n div 2 ^ 8), of_nat n]
      else None)"

text \<open>
  Exceptions that can leave a method, and the outcome of a call: a returned value or a
  raised exception. Exceptions that the source catches do not appear here; they are
  branches of the functions that catch them.
\<close>

datatype exn = TypeError | KeyError | AttributeError | ValueError

datatype 'a res = Ret 'a | Raise exn

text \<open>Truth value of an object (\<^verbatim>\<open>if x:\<close>, \<^verbatim>\<open>not x\<close>).\<close>

fun truthy :: "json \<Rightarrow> bool" where
  "truthy JNull = False"
| "truthy (JBool b) = b"
| "truthy (JInt i) = (i \<noteq> 0)"
| "truthy (JFloat x) = (x \<noteq> 0)"
| "truthy (JStr s) = (s \<noteq> [])"
| "truthy (JArr xs) = (xs \<noteq> [])"
| "truthy (JObj kvs) = (kvs \<noteq> [])"

fun is_prefix :: "string \<Rightarrow> string \<Rightarrow> bool" where
  "is_prefix [] ys = True"
| "is_prefix (x # xs) [] = False"
| "is_prefix (x # xs) (y # ys) = (x = y \<and> is_prefix xs ys)"

fun str_contains :: "string \<Rightarrow> string \<Rightarrow> bool" where
  "str_contains pat [] = (pat = [])"
| "str_contains pat (c # cs) = (is_prefix pat (c # cs) \<or> str_contains pat cs)"

text \<open>
  \<^verbatim>\<open>key in obj\<close> for a string key: a key of a dict, an element of a list, a
  substring of a string; on a number, a bool or \<^verbatim>\<open>None\<close> it raises TypeError.
\<close>

fun py_in :: "string \<Rightarrow> json \<Rightarrow> bool res" where
  "py_in k (JObj kvs) = Ret (map_of kvs k \<noteq> None)"
| "py_in k (JArr xs) = Ret (JStr k \<in> set xs)"
| "py_in k (JStr s) = Ret (str_contains k s)"
| "py_in k _ = Raise TypeError"

text \<open>\<^verbatim>\<open>obj[key]\<close> for a string key: KeyError on a dict without it, TypeError elsewhere.\<close>

fun py_getitem :: "json \<Rightarrow> string \<Rightarrow> json res" where
  "py_getitem (JObj kvs) k = (case map_of kvs k of Some v \<Rightarrow> Ret v | None \<Rightarrow> Raise KeyError)"
| "py_getitem _ k = Raise TypeError"

text \<open>\<^verbatim>\<open>obj.get(key, default)\<close>: only a dict has the method.\<close>

fun py_get :: "json \<Rightarrow> string \<Rightarrow> json \<Rightarrow> json res" where
  "py_get (JObj kvs) k d = (case map_of kvs k of Some v \<Rightarrow> Ret v | None \<Rightarrow> Ret d)"
| "py_get _ k d = Raise AttributeError"

text \<open>
  \<^verbatim>\<open>v == n\<close> for an int \<open>n\<close>: numbers compare by value, and \<^verbatim>\<open>True\<close> and
  \<^verbatim>\<open>False\<close> are the ints 1 and 0. A non-finite float equals no int.
\<close>

fun py_eq_int :: "json \<Rightarrow> int \<Rightarrow> bool" where
  "py_eq_int (JInt m) n = (m = n)"
| "py_eq_int (JBool b) n = ((if b then 1 else 0) = n)"
| "py_eq_int (JFloat x) n = (x = of_int n)"
| "py_eq_int _ n = False"

text \<open>\<^verbatim>\<open>v == s\<close> for a string \<open>s\<close>.\<close>

definition py_eq_str :: "json \<Rightarrow> string \<Rightarrow> bool" where
  "py_eq_str v s = (v = JStr s)"

text \<open>\<^verbatim>\<open>str(n)\<close> for an int.\<close>

definition digit_char :: "nat \<Rightarrow> char" where
  "digit_char d = ''0123456789'' ! d"

fun str_nat :: "nat \<Rightarrow> string" where
  "str_nat n = (if n < 10 then [digit_char n] else str_nat (n div 10) @ [digit_char (n mod 10)])"

declare str_nat.simps [simp del]

definition str_int :: "int \<Rightarrow> string" where
  "str_int i = (if i < 0 then CHR ''-'' # str_nat (nat (- i)) else str_nat (nat i))"


section \<open>The socket\<close>

text \<open>
  What the peer and the network do is a script the socket consumes. An incoming event is
  a chunk of bytes that has arrived, the end of the stream, a timeout of the blocking
  call, or a connection error. \<^verbatim>\<open>recv(n)\<close> returns at most \<open>n\<close> bytes of the chunk
  at the front and leaves the rest of the chunk for the next call; when the script is
  used up nothing more arrives and the call times out. A script is finite: a peer that
  never stops sending is outside the model. The socket records the sizes asked of
  \<^verbatim>\<open>recv\<close> and the data handed to \<^verbatim>\<open>sendall\<close>/\<^verbatim>\<open>send\<close>.
\<close>

datatype recv_event = Data "byte list" | Eof | TimeoutEv | ErrorEv

datatype recv_result = RBytes "byte list" | RTimeout | RError

record socket =
  incoming :: "recv_event list"
  send_script :: "bool list"
  close_raises :: bool
  recv_log :: "nat list"
  sent :: "byte list list"
  closed :: bool

definition sock_recv :: "nat \<Rightarrow> socket \<Rightarrow> recv_result \<times> socket" where
  "sock_recv n s =
     (let s' = s\<lparr>recv_log := recv_log s @ [n]\<rparr> in
      case incoming s of
        [] \<Rightarrow> (RTimeout, s')
      | Data bs # rest \<Rightarrow>
          (RBytes (take n bs),
           s'\<lparr>incoming := (if drop n bs = [] then rest else Data (drop n bs) # rest)\<rparr>)
      | Eof # rest \<Rightarrow> (RBytes [], s')
      | TimeoutEv # rest \<Rightarrow> (RTimeout, s'\<lparr>incoming := rest\<rparr>)
      | ErrorEv # rest \<Rightarrow> (RError, s'\<lparr>incoming := rest\<rparr>))"

text \<open>
  \<^verbatim>\<open>sendall(data)\<close>: the next entry of the send script says whether the call
  succeeds (\<open>True\<close>) or raises; with the script used up it succeeds.
\<close>

definition sock_sendall :: "byte list \<Rightarrow> socket \<Rightarrow> bool \<times> socket" where
  "sock_sendall data s =
     (case send_script s of
        [] \<Rightarrow> (True, s\<lparr>sent := sent s @ [data]\<rparr>)
      | ok # rest \<Rightarrow>
          if ok then (True, s\<lparr>send_script := rest, sent := sent s @ [data]\<rparr>)
          else (False, s\<lparr>send_script := rest\<rparr>))"

text \<open>\<^verbatim>\<open>close()\<close>: \<open>False\<close> when the call raises.\<close>

definition sock_close :: "socket \<Rightarrow> bool \<times> socket" where
  "sock_close s = (if close_raises s then (False, s) else (True, s\<lparr>closed := True\<rparr>))"

text \<open>The bytes still to be delivered by the leading chunks of a script.\<close>

fun wire_data :: "recv_event list \<Rightarrow> byte list" where
  "wire_data (Data bs # rest) = bs @ wire_data rest"
| "wire_data _ = []"

text \<open>
  \<^verbatim>\<open>send(data)\<close>, used by the newline-framed client, which only prints the number
  of bytes the call reports; the script entry says whether the call raises.
\<close>

definition sock_send :: "byte list \<Rightarrow> socket \<Rightarrow> bool \<times> socket" where
  "sock_send data s = sock_sendall data s"

text \<open>A size of the script that every \<^verbatim>\<open>recv\<close> returning data decreases.\<close>

fun wire_size :: "recv_event list \<Rightarrow> nat" where
  "wire_size [] = 0"
| "wire_size (Data bs # rest) = Suc (length bs) + wire_size rest"
| "wire_size (_ # rest) = Suc (wire_size rest)"

section \<open>SessionMCPClient (test\_session\_management.py)\<close>

datatype SessionState =
    UNINITIALIZED | INITIALIZING | INITIALIZED | ACTIVE | SHUTTING_DOWN | SHUTDOWN | ERROR_STATE

text \<open>
  The attributes of the client that its methods read or write after construction. The
  host, the port and the client id only go into \<^verbatim>\<open>connect\<close> and into printed
  messages, \<^verbatim>\<open>available_tools\<close> belongs to \<^verbatim>\<open>list_tools\<close>, and the lock
  guards the id counter against callers on other threads.
\<close>

record SessionMCPClient =
  sock :: "socket option"
  request_id :: int
  initialized :: bool
  server_info :: json
  session_state :: SessionState

text \<open>
  Both loops of \<^verbatim>\<open>_receive_framed_message\<close> (lines 126-130 and 141-145):
  \<^verbatim>\<open>while len(buf) < n: chunk = recv(n - len(buf)); if not chunk: return None; buf += chunk\<close>.
  \<open>None\<close> is the \<^verbatim>\<open>return None\<close> of the loop, and also the timeout or error that
  \<^verbatim>\<open>recv\<close> raises, which the function's handlers turn into \<^verbatim>\<open>return None\<close>.
\<close>

function read_loop :: "nat \<Rightarrow> byte list \<Rightarrow> socket \<Rightarrow> byte list option \<times> socket" where
  "read_loop n buf s =
     (if length buf < n then
        (case sock_recv (n - length buf) s of
           (RBytes chunk, s') \<Rightarrow>
             if chunk = [] then (None, s') else read_loop n (buf @ chunk) s'
         | (RTimeout, s') \<Rightarrow> (None, s')
         | (RError, s') \<Rightarrow> (None, s'))
      else (Some buf, s))"
  by pat_completeness auto
termination
proof (relation "measure (\<lambda>(n, buf, s). n - length buf)")
  fix n :: nat and buf :: "byte list" and s y :: socket and x1 :: "byte list"
  assume "length buf < n" and "x1 \<noteq> []"
  then show "((n, buf @ x1, y), n, buf, s) \<in> measure (\<lambda>(n, buf, s). n - length buf)"
    by (cases x1) auto
qed simp

declare read_loop.simps [simp del]

text \<open>
  \<^verbatim>\<open>_receive_framed_message\<close>: first the part that works on the socket, then the
  method, which returns \<^verbatim>\<open>None\<close> at once when no socket is attached.
\<close>

definition receive_frame :: "codec \<Rightarrow> socket \<Rightarrow> string option \<times> socket" where
  "receive_frame cdc s =
     (case read_loop 4 [] s of
        (None, s1) \<Rightarrow> (None, s1)
      | (Some length_data, s1) \<Rightarrow>
          let message_length = from_bytes_big length_data in
          if message_length > 1024 * 1024 then (None, s1)
          else
            (case read_loop message_length [] s1 of
               (None, s2) \<Rightarrow> (None, s2)
             | (Some message_data, s2) \<Rightarrow> (decode cdc message_data, s2)))"

definition receive_framed_message ::
  "codec \<Rightarrow> SessionMCPClient \<Rightarrow> string option \<times> SessionMCPClient" where
  "receive_framed_message cdc c =
     (case sock c of
        None \<Rightarrow> (None, c)
      | Some s \<Rightarrow> (case receive_frame cdc s of (r, s') \<Rightarrow> (r, c\<lparr>sock := Some s'\<rparr>)))"




text \<open>\<^verbatim>\<open>_get_next_id\<close>\<close>

definition get_next_id :: "SessionMCPClient \<Rightarrow> int \<times> SessionMCPClient" where
  "get_next_id c = (request_id c + 1, c\<lparr>request_id := request_id c + 1\<rparr>)"

text \<open>
  \<^verbatim>\<open>_send_framed_message\<close>: \<open>False\<close> without a socket, when the length does not
  fit four bytes (OverflowError) and when \<^verbatim>\<open>sendall\<close> raises.
\<close>

definition send_framed_message ::
  "codec \<Rightarrow> string \<Rightarrow> SessionMCPClient \<Rightarrow> bool \<times> SessionMCPClient" where
  "send_framed_message cdc data c =
     (case sock c of
        None \<Rightarrow> (False, c)
      | Some s \<Rightarrow>
          let message_bytes = encode cdc data in
          (case to_bytes4_big (length message_bytes) of
             None \<Rightarrow> (False, c)
           | Some length_prefix \<Rightarrow>
               (case sock_sendall (length_prefix @ message_bytes) s of
                  (ok, s') \<Rightarrow> (ok, c\<lparr>sock := Some s'\<rparr>))))"

text \<open>The request dict of \<^verbatim>\<open>send_request\<close>, in insertion order.\<close>

definition make_request :: "string \<Rightarrow> json option \<Rightarrow> int \<Rightarrow> json" where
  "make_request method params rid =
     JObj ([(''jsonrpc'', JStr ''2.0''), (''method'', JStr method), (''id'', JInt rid)]
           @ (case params of
                None \<Rightarrow> []
              | Some p \<Rightarrow> if truthy p then [(''params'', p)] else []))"

text \<open>
  The checks of \<^verbatim>\<open>send_request\<close> on the parsed response (lines 185-193). The
  only handler around them is \<^verbatim>\<open>except json.JSONDecodeError\<close>, so a TypeError
  of \<^verbatim>\<open>in\<close> or of the subscript leaves the method.
\<close>

definition validate_response :: "json \<Rightarrow> int \<Rightarrow> json res" where
  "validate_response response rid =
     (case py_in ''jsonrpc'' response of
        Raise e \<Rightarrow> Raise e
      | Ret has_version \<Rightarrow>
          if \<not> has_version then Ret JNull
          else
            (case py_getitem response ''jsonrpc'' of
               Raise e \<Rightarrow> Raise e
             | Ret v \<Rightarrow>
                 if \<not> py_eq_str v ''2.0'' then Ret JNull
                 else
                   (case py_in ''id'' response of
                      Raise e \<Rightarrow> Raise e
                    | Ret has_id \<Rightarrow>
                        if has_id then
                          (case py_getitem response ''id'' of
                             Raise e \<Rightarrow> Raise e
                           | Ret i \<Rightarrow> if \<not> py_eq_int i rid then Ret JNull else Ret response)
                        else Ret response)))"

text \<open>
  \<^verbatim>\<open>SessionMCPClient.send_request\<close>. The timeout argument is the socket's
  business: a timeout is an event of the script.
\<close>

definition send_request ::
  "codec \<Rightarrow> string \<Rightarrow> json option \<Rightarrow> SessionMCPClient \<Rightarrow> json res \<times> SessionMCPClient" where
  "send_request cdc method params c =
     (case get_next_id c of
        (rid, c1) \<Rightarrow>
          let request_json = dumps cdc (make_request method params rid) in
          (case send_framed_message cdc request_json c1 of
             (False, c2) \<Rightarrow> (Ret JNull, c2)
           | (True, c2) \<Rightarrow>
               (case receive_framed_message cdc c2 of
                  (None, c3) \<Rightarrow> (Ret JNull, c3)
                | (Some response_json, c3) \<Rightarrow>
                    if response_json = [] then (Ret JNull, c3)
                    else
                      (case loads cdc response_json of
                         None \<Rightarrow> (Ret JNull, c3)
                       | Some response \<Rightarrow> (validate_response response rid, c3)))))"

definition init_params :: json where
  "init_params =
     JObj [(''protocolVersion'', JStr ''2024-11-05''),
           (''capabilities'',
              JObj [(''roots'', JObj [(''listChanged'', JBool True)]), (''sampling'', JObj [])]),
           (''clientInfo'',
              JObj [(''name'', JStr ''SessionTestClient''), (''version'', JStr ''1.0.0'')])]"

definition initialized_notification :: json where
  "initialized_notification =
     JObj [(''jsonrpc'', JStr ''2.0''), (''method'', JStr ''notifications/initialized'')]"

text \<open>\<^verbatim>\<open>SessionMCPClient.initialize\<close>\<close>

definition initialize :: "codec \<Rightarrow> SessionMCPClient \<Rightarrow> bool res \<times> SessionMCPClient" where
  "initialize cdc c =
     (if initialized c then (Ret True, c)
      else
        (case send_request cdc ''initialize'' (Some init_params) c of
           (Raise e, c1) \<Rightarrow> (Raise e, c1)
         | (Ret response, c1) \<Rightarrow>
             if \<not> truthy response then (Ret False, c1)
             else
               (case py_in ''error'' response of
                  Raise e \<Rightarrow> (Raise e, c1)
                | Ret has_error \<Rightarrow>
                    if has_error then (Ret False, c1)
                    else
                      (case py_in ''result'' response of
                         Raise e \<Rightarrow> (Raise e, c1)
                       | Ret has_result \<Rightarrow>
                           if \<not> has_result then (Ret False, c1)
                           else
                             (case py_getitem response ''result'' of
                                Raise e \<Rightarrow> (Raise e, c1)
                              | Ret result \<Rightarrow>
                                  let c2 = c1\<lparr>server_info := result,
                                              session_state := INITIALIZED\<rparr> in
                                  (case send_framed_message cdc
                                          (dumps cdc initialized_notification) c2 of
                                     (True, c3) \<Rightarrow>
                                       (Ret True,
                                        c3\<lparr>initialized := True, session_state := ACTIVE\<rparr>)
                                   | (False, c3) \<Rightarrow> (Ret False, c3)))))))"

text \<open>The \<^verbatim>\<open>params\<close> dict that \<^verbatim>\<open>call_tool\<close> builds.\<close>

definition tool_params :: "string \<Rightarrow> json option \<Rightarrow> json" where
  "tool_params name arguments =
     JObj ([(''name'', JStr name)]
           @ (case arguments of
                None \<Rightarrow> []
              | Some a \<Rightarrow> if truthy a then [(''arguments'', a)] else []))"

text \<open>\<^verbatim>\<open>SessionMCPClient.call_tool\<close>\<close>

definition call_tool ::
  "codec \<Rightarrow> string \<Rightarrow> json option \<Rightarrow> SessionMCPClient \<Rightarrow> json res \<times> SessionMCPClient" where
  "call_tool cdc name arguments c =
     (if \<not> initialized c then (Ret JNull, c)
      else
        (case send_request cdc ''tools/call'' (Some (tool_params name arguments)) c of
           (Raise e, c1) \<Rightarrow> (Raise e, c1)
         | (Ret response, c1) \<Rightarrow>
             if truthy response then
               (case py_in ''result'' response of
                  Raise e \<Rightarrow> (Raise e, c1)
                | Ret has_result \<Rightarrow>
                    if has_result then (py_getitem response ''result'', c1)
                    else (Ret response, c1))
             else (Ret response, c1)))"

text \<open>
  \<^verbatim>\<open>SessionMCPClient.disconnect\<close>: whatever \<^verbatim>\<open>close\<close> does, the bare
  \<^verbatim>\<open>except\<close> swallows it and the \<^verbatim>\<open>finally\<close> clause runs.
\<close>

definition disconnect :: "SessionMCPClient \<Rightarrow> unit res \<times> SessionMCPClient" where
  "disconnect c =
     (case sock c of
        None \<Rightarrow> (Ret (), c)
      | Some s \<Rightarrow>
          (case sock_close s of
             (ok, s') \<Rightarrow> (Ret (), c\<lparr>sock := None, initialized := False\<rparr>)))"



section \<open>MCPClient (test\_mcp\_client.py)\<close>

text \<open>The attributes of the client, prefixed to keep them apart from the other client's.\<close>

record MCPClient =
  mcp_sock :: "socket option"
  mcp_request_id :: int
  mcp_initialized :: bool
  mcp_server_info :: json

definition newline :: char where
  "newline = CHR 0x0A"

text \<open>
  The receive loop of \<^verbatim>\<open>MCPClient.send_request\<close> (lines 88-104), from the
  accumulated \<^verbatim>\<open>response_data\<close>. \<open>Some line\<close> is the value of
  \<^verbatim>\<open>response_line\<close> when the loop is left by \<^verbatim>\<open>break\<close>; \<open>None\<close> is an
  exception other than the timeout (a connection error, undecodable bytes), which the
  method's last handler turns into \<^verbatim>\<open>return None\<close>. The empty byte string
  decodes to the empty chunk.
\<close>

function recv_line_loop :: "codec \<Rightarrow> string \<Rightarrow> socket \<Rightarrow> string option \<times> socket" where
  "recv_line_loop cdc response_data s =
     (case sock_recv 4096 s of
        (RTimeout, s') \<Rightarrow> (Some [], s')
      | (RError, s') \<Rightarrow> (None, s')
      | (RBytes bs, s') \<Rightarrow>
          if bs = [] then (Some [], s')
          else
            (case decode cdc bs of
               None \<Rightarrow> (None, s')
             | Some chunk \<Rightarrow>
                 if chunk = [] then (Some [], s')
                 else
                   let response_data' = response_data @ chunk in
                   if newline \<in> set response_data'
                   then (Some (takeWhile (\<lambda>ch. ch \<noteq> newline) response_data'), s')
                   else recv_line_loop cdc response_data' s'))"
  by pat_completeness auto
termination
proof (relation "measure (\<lambda>(cdc, response_data, s). wire_size (incoming s))")
  fix cdc :: codec and response_data :: string and s s' :: socket and bs :: "byte list"
    and x :: recv_result and chunk :: string and xa :: string
  assume "(x, s') = sock_recv 4096 s" and "x = RBytes bs" and "bs \<noteq> []"
  then have "wire_size (incoming s') < wire_size (incoming s)"
    by (auto simp: sock_recv_def Let_def split: list.splits recv_event.splits if_splits)
  then show "((cdc, xa, s'), cdc, response_data, s)
      \<in> measure (\<lambda>(cdc, response_data, s). wire_size (incoming s))"
    by simp
qed simp

declare recv_line_loop.simps [simp del]

text \<open>The request dict of \<^verbatim>\<open>MCPClient.send_request\<close>; the id is a string.\<close>

definition mcp_make_request :: "string \<Rightarrow> json option \<Rightarrow> int \<Rightarrow> json" where
  "mcp_make_request method params rid =
     JObj ([(''jsonrpc'', JStr ''2.0''), (''id'', JStr (str_int rid)), (''method'', JStr method)]
           @ (case params of
                None \<Rightarrow> []
              | Some p \<Rightarrow> if truthy p then [(''params'', p)] else []))"

text \<open>
  \<^verbatim>\<open>MCPClient.send_request\<close>. Every exception is caught inside, so the outcome is
  a value: the parsed line, or \<^verbatim>\<open>None\<close>.
\<close>

definition mcp_send_request ::
  "codec \<Rightarrow> string \<Rightarrow> json option \<Rightarrow> MCPClient \<Rightarrow> json \<times> MCPClient" where
  "mcp_send_request cdc method params c =
     (case mcp_sock c of
        None \<Rightarrow> (JNull, c)
      | Some s \<Rightarrow>
          let rid = mcp_request_id c + 1;
              c1 = c\<lparr>mcp_request_id := rid\<rparr>;
              request_json = dumps cdc (mcp_make_request method params rid) in
          (case sock_send (encode cdc (request_json @ [newline])) s of
             (False, s1) \<Rightarrow> (JNull, c1\<lparr>mcp_sock := Some s1\<rparr>)
           | (True, s1) \<Rightarrow>
               (case recv_line_loop cdc [] s1 of
                  (None, s2) \<Rightarrow> (JNull, c1\<lparr>mcp_sock := Some s2\<rparr>)
                | (Some response_line, s2) \<Rightarrow>
                    if response_line = [] then (JNull, c1\<lparr>mcp_sock := Some s2\<rparr>)
                    else
                      (case loads cdc response_line of
                         None \<Rightarrow> (JNull, c1\<lparr>mcp_sock := Some s2\<rparr>)
                       | Some response \<Rightarrow> (response, c1\<lparr>mcp_sock := Some s2\<rparr>)))))"

text \<open>
  Iterating \<^verbatim>\<open>for item in content\<close>: the elements of a list, the keys of a dict, the
  characters of a string; TypeError on anything else.
\<close>

fun py_iter :: "json \<Rightarrow> json list res" where
  "py_iter (JArr xs) = Ret xs"
| "py_iter (JObj kvs) = Ret (map (\<lambda>kv. JStr (fst kv)) kvs)"
| "py_iter (JStr s) = Ret (map (\<lambda>ch. JStr [ch]) s)"
| "py_iter _ = Raise TypeError"

text \<open>
  The body of the content loop of \<^verbatim>\<open>call_tool\<close> calls \<^verbatim>\<open>item.get\<close> and prints:
  it raises AttributeError at the first item that is not a dict.
\<close>

fun print_content :: "json list \<Rightarrow> unit res" where
  "print_content [] = Ret ()"
| "print_content (item # items) =
     (case py_get item ''type'' (JStr ''unknown'') of
        Raise e \<Rightarrow> Raise e
      | Ret content_type \<Rightarrow> print_content items)"

text \<open>
  \<^verbatim>\<open>MCPClient.call_tool\<close>. The error branch prints \<^verbatim>\<open>error['code']\<close> and
  \<^verbatim>\<open>error['message']\<close>, which raise when the error value lacks them.
\<close>

definition mcp_call_tool ::
  "codec \<Rightarrow> string \<Rightarrow> json \<Rightarrow> MCPClient \<Rightarrow> bool res \<times> MCPClient" where
  "mcp_call_tool cdc tool_name arguments c =
     (if \<not> mcp_initialized c then (Ret False, c)
      else
        let params = JObj [(''name'', JStr tool_name), (''arguments'', arguments)] in
        (case mcp_send_request cdc ''tools/call'' (Some params) c of
           (response, c1) \<Rightarrow>
             if \<not> truthy response then (Ret False, c1)
             else
               (case py_in ''error'' response of
                  Raise e \<Rightarrow> (Raise e, c1)
                | Ret has_error \<Rightarrow>
                    if has_error then
                      (case py_getitem response ''error'' of
                         Raise e \<Rightarrow> (Raise e, c1)
                       | Ret error \<Rightarrow>
                           (case py_getitem error ''code'' of
                              Raise e \<Rightarrow> (Raise e, c1)
                            | Ret code \<Rightarrow>
                                (case py_getitem error ''message'' of
                                   Raise e \<Rightarrow> (Raise e, c1)
                                 | Ret message \<Rightarrow> (Ret False, c1))))
                    else
                      (case py_in ''result'' response of
                         Raise e \<Rightarrow> (Raise e, c1)
                       | Ret has_result \<Rightarrow>
                           if \<not> has_result then (Ret False, c1)
                           else
                             (case py_getitem response ''result'' of
                                Raise e \<Rightarrow> (Raise e, c1)
                              | Ret result \<Rightarrow>
                                  (case py_get result ''content'' (JArr []) of
                                     Raise e \<Rightarrow> (Raise e, c1)
                                   | Ret content \<Rightarrow>
                                       (case py_iter content of
                                          Raise e \<Rightarrow> (Raise e, c1)
                                        | Ret items \<Rightarrow>
                                            (case print_content items of
                                               Raise e \<Rightarrow> (Raise e, c1)
                                             | Ret u \<Rightarrow> (Ret True, c1)))))))))"

text \<open>\<^verbatim>\<open>MCPClient.disconnect\<close>\<close>

definition mcp_disconnect :: "MCPClient \<Rightarrow> unit res \<times> MCPClient" where
  "mcp_disconnect c =
     (case mcp_sock c of
        None \<Rightarrow> (Ret (), c)
      | Some s \<Rightarrow> (case sock_close s of (ok, s') \<Rightarrow> (Ret (), c\<lparr>mcp_sock := None\<rparr>)))"



section \<open>The log aggregator (integrated\_test\_runner.py)\<close>

text \<open>A naive \<^verbatim>\<open>datetime\<close>, as \<^verbatim>\<open>datetime.now()\<close> returns it.\<close>

record datetime =
  year :: nat
  month :: nat
  day :: nat
  hour :: nat
  minute :: nat
  second :: nat
  microsecond :: nat

text \<open>\<^verbatim>\<open>'%0wd' % n\<close>: decimal digits, zero-padded on the left to width \<open>w\<close>.\<close>

definition zfill :: "nat \<Rightarrow> nat \<Rightarrow> string" where
  "zfill w n = replicate (w - length (str_nat n)) (CHR ''0'') @ str_nat n"

text \<open>\<^verbatim>\<open>datetime.isoformat()\<close>: the fraction is left out when it is zero.\<close>

definition isoformat :: "datetime \<Rightarrow> string" where
  "isoformat t =
     zfill 4 (year t) @ ''-'' @ zfill 2 (month t) @ ''-'' @ zfill 2 (day t) @ ''T''
     @ zfill 2 (hour t) @ '':'' @ zfill 2 (minute t) @ '':'' @ zfill 2 (second t)
     @ (if microsecond t = 0 then [] else ''.'' @ zfill 6 (microsecond t))"

text \<open>\<^verbatim>\<open>strftime("%H:%M:%S.%f")[:-3]\<close>\<close>

definition strftime_ms :: "datetime \<Rightarrow> string" where
  "strftime_ms t =
     (let str = zfill 2 (hour t) @ '':'' @ zfill 2 (minute t) @ '':'' @ zfill 2 (second t)
                @ ''.'' @ zfill 6 (microsecond t)
      in take (length str - 3) str)"

text \<open>The format specification \<^verbatim>\<open>{s:>w}\<close>: pad with spaces on the left up to width \<open>w\<close>.\<close>

definition rjust :: "nat \<Rightarrow> string \<Rightarrow> string" where
  "rjust w str = replicate (w - length str) (CHR '' '') @ str"

record LogEntry =
  timestamp :: datetime
  source :: string
  level :: string
  message :: string
  raw_data :: "string option"

text \<open>
  A text file opened for writing: what has reached the file, what is still in the
  buffer, and whether the file object is closed.
\<close>

record text_file =
  flushed :: string
  pending :: string
  is_closed :: bool

definition file_open_w :: text_file where
  "file_open_w = \<lparr>flushed = [], pending = [], is_closed = False\<rparr>"

definition file_write :: "string \<Rightarrow> text_file \<Rightarrow> unit res \<times> text_file" where
  "file_write txt f =
     (if is_closed f then (Raise ValueError, f) else (Ret (), f\<lparr>pending := pending f @ txt\<rparr>))"

definition file_flush :: "text_file \<Rightarrow> unit res \<times> text_file" where
  "file_flush f =
     (if is_closed f then (Raise ValueError, f)
      else (Ret (), f\<lparr>flushed := flushed f @ pending f, pending := []\<rparr>))"

definition file_close :: "text_file \<Rightarrow> text_file" where
  "file_close f =
     (if is_closed f then f
      else f\<lparr>flushed := flushed f @ pending f, pending := [], is_closed := True\<rparr>)"

text \<open>What \<^verbatim>\<open>_display_log_entry\<close> prints: colour, time, icon, source tag, message.\<close>

datatype icon = Fire | Warning | Antenna | CrossMark | TestTube | Laptop

record display_line =
  colour :: string
  time_str :: string
  icon_of :: icon
  source_tag :: string
  text_of :: string

text \<open>
  The runner: its configuration, the queue, the flag and the file, and what it has
  printed through \<^verbatim>\<open>_display_log_entry\<close>. The serial monitor and the test executor
  are the producers; they appear below only through what they put into the queue.
\<close>

record IntegratedTestRunner =
  esp_ip :: string
  serial_port :: string
  baud_rate :: int
  log_queue :: "LogEntry list"
  running :: bool
  log_file :: "text_file option"
  console :: "display_line list"

definition esc :: char where
  "esc = CHR 0x1B"

text \<open>\<^verbatim>\<open>_display_log_entry\<close>\<close>

definition display_log_entry :: "LogEntry \<Rightarrow> IntegratedTestRunner \<Rightarrow> IntegratedTestRunner" where
  "display_log_entry entry r =
     (let timestamp_str = strftime_ms (timestamp entry);
          (color, icn) =
            (if source entry = ''ESP8266'' then
               (if level entry = ''ERROR'' then (esc # ''[91m'', Fire)
                else if level entry = ''WARNING'' then (esc # ''[93m'', Warning)
                else (esc # ''[94m'', Antenna))
             else
               (if level entry = ''ERROR'' then (esc # ''[91m'', CrossMark)
                else if level entry = ''TEST'' then (esc # ''[95m'', TestTube)
                else (esc # ''[92m'', Laptop)))
      in r\<lparr>console := console r @
             [\<lparr>colour = color, time_str = timestamp_str, icon_of = icn,
               source_tag = rjust 7 (source entry), text_of = message entry\<rparr>]\<rparr>)"

text \<open>The header text of \<^verbatim>\<open>_write_log_header\<close>, at the clock reading \<open>now\<close>.\<close>

definition log_header :: "datetime \<Rightarrow> IntegratedTestRunner \<Rightarrow> string" where
  "log_header now r =
     [newline] @ ''# ESP8266 MCP Integrated Test Log'' @ [newline]
     @ ''# Generated: '' @ isoformat now @ [newline]
     @ ''# ESP8266 IP: '' @ esp_ip r @ [newline]
     @ ''# Serial Port: '' @ serial_port r @ [newline]
     @ ''# Baud Rate: '' @ str_int (baud_rate r) @ [newline]
     @ replicate 80 (CHR ''='') @ [newline]"

text \<open>\<^verbatim>\<open>_write_log_header\<close>\<close>

definition write_log_header ::
  "datetime \<Rightarrow> IntegratedTestRunner \<Rightarrow> unit res \<times> IntegratedTestRunner" where
  "write_log_header now r =
     (case log_file r of
        None \<Rightarrow> (Ret (), r)
      | Some f \<Rightarrow>
          (case file_write (log_header now r) f of
             (Raise e, f1) \<Rightarrow> (Raise e, r\<lparr>log_file := Some f1\<rparr>)
           | (Ret u, f1) \<Rightarrow>
               (case file_flush f1 of (out, f2) \<Rightarrow> (out, r\<lparr>log_file := Some f2\<rparr>))))"

text \<open>The line of \<^verbatim>\<open>_write_log_entry\<close>.\<close>

definition log_line :: "LogEntry \<Rightarrow> string" where
  "log_line entry =
     isoformat (timestamp entry) @ '' ['' @ rjust 7 (source entry) @ ''] ''
     @ rjust 5 (level entry) @ '': '' @ message entry @ [newline]"

text \<open>\<^verbatim>\<open>_write_log_entry\<close>\<close>

definition write_log_entry ::
  "LogEntry \<Rightarrow> IntegratedTestRunner \<Rightarrow> unit res \<times> IntegratedTestRunner" where
  "write_log_entry entry r =
     (case log_file r of
        None \<Rightarrow> (Ret (), r)
      | Some f \<Rightarrow>
          (case file_write (log_line entry) f of
             (Raise e, f1) \<Rightarrow> (Raise e, r\<lparr>log_file := Some f1\<rparr>)
           | (Ret u, f1) \<Rightarrow>
               (case file_flush f1 of (out, f2) \<Rightarrow> (out, r\<lparr>log_file := Some f2\<rparr>))))"

text \<open>
  The part of \<^verbatim>\<open>start_logging\<close> that concerns the file and the flag: with a path,
  the file is opened for writing (truncated) and the header written; then the flag is
  set. Starting the serial monitor and the thread is outside this function.
\<close>

definition start_logging ::
  "datetime \<Rightarrow> string option \<Rightarrow> IntegratedTestRunner \<Rightarrow> unit res \<times> IntegratedTestRunner" where
  "start_logging now log_file_path r =
     (let opened = (case log_file_path of
                      None \<Rightarrow> (Ret (), r)
                    | Some path \<Rightarrow>
                        if path = [] then (Ret (), r)
                        else write_log_header now (r\<lparr>log_file := Some file_open_w\<rparr>))
      in case opened of
           (Raise e, r1) \<Rightarrow> (Raise e, r1)
         | (Ret u, r1) \<Rightarrow> (Ret (), r1\<lparr>running := True\<rparr>))"

text \<open>
  One turn of the loop of \<^verbatim>\<open>_process_log_queue\<close> for an entry taken from the
  queue: display, then write when a file is configured; an exception of the write is
  caught by the loop's handler.
\<close>

definition process_entry :: "LogEntry \<Rightarrow> IntegratedTestRunner \<Rightarrow> IntegratedTestRunner" where
  "process_entry entry r =
     (let r1 = display_log_entry entry r in
      case log_file r1 of
        None \<Rightarrow> r1
      | Some f \<Rightarrow> snd (write_log_entry entry r1))"

text \<open>The turns of the loop for the entries taken from the queue one after the other.\<close>

fun process_entries :: "LogEntry list \<Rightarrow> IntegratedTestRunner \<Rightarrow> IntegratedTestRunner" where
  "process_entries [] r = r"
| "process_entries (entry # entries) r = process_entries entries (process_entry entry r)"



section \<open>A codec for concrete runs\<close>

text \<open>
  A small instance of the library parameter, for evaluating the clients on concrete
  wires: ASCII for \<^verbatim>\<open>encode\<close> and \<^verbatim>\<open>decode\<close>, a serialiser for values
  without floats and without characters that need escaping, and a parser that knows
  the messages of the examples.
\<close>

definition char_of_byte :: "byte \<Rightarrow> char" where
  "char_of_byte b = Char (bit b 0) (bit b 1) (bit b 2) (bit b 3) (bit b 4) (bit b 5) (bit b 6) (bit b 7)"

definition ascii_decode :: "byte list \<Rightarrow> string option" where
  "ascii_decode bs =
     (if list_all (\<lambda>b. unat b < 128) bs then Some (map char_of_byte bs) else None)"

definition ascii_encode :: "string \<Rightarrow> byte list" where
  "ascii_encode str = map (\<lambda>ch. of_nat (of_char ch)) str"

definition join_str :: "string \<Rightarrow> string list \<Rightarrow> string" where
  "join_str sep strs = (case strs of [] \<Rightarrow> [] | x # xs \<Rightarrow> x @ concat (map (\<lambda>y. sep @ y) xs))"

definition quoted :: "string \<Rightarrow> string" where
  "quoted str = CHR 0x22 # str @ [CHR 0x22]"

fun show_json :: "json \<Rightarrow> string" where
  "show_json JNull = ''null''"
| "show_json (JBool b) = (if b then ''true'' else ''false'')"
| "show_json (JInt i) = str_int i"
| "show_json (JFloat x) = ''NaN''"
| "show_json (JStr str) = quoted str"
| "show_json (JArr xs) = ''['' @ join_str '', '' (map show_json xs) @ '']''"
| "show_json (JObj kvs) =
     ''{'' @ join_str '', '' (map (\<lambda>kv. quoted (fst kv) @ '': '' @ show_json (snd kv)) kvs) @ ''}''"

text \<open>Messages of the examples, as the peer sends them, and what the parser makes of them.\<close>

definition init_ok_text :: string where
  \<open>init_ok_text = ''{"jsonrpc": "2.0", "id": 1, "result": {"serverInfo": {"name": "esp"}}}''\<close>

definition init_ok_json :: json where
  "init_ok_json =
     JObj [(''jsonrpc'', JStr ''2.0''), (''id'', JInt 1),
           (''result'', JObj [(''serverInfo'', JObj [(''name'', JStr ''esp'')])])]"

definition init_error_text :: string where
  \<open>init_error_text = ''{"jsonrpc": "2.0", "id": 1, "error": {"code": -32602, "message": "bad"}}''\<close>

definition init_error_json :: json where
  "init_error_json =
     JObj [(''jsonrpc'', JStr ''2.0''), (''id'', JInt 1),
           (''error'', JObj [(''code'', JInt (- 32602)), (''message'', JStr ''bad'')])]"

definition tool_error_text :: string where
  \<open>tool_error_text =
     ''{"jsonrpc": "2.0", "id": 2, "error": {"code": -32601, "message": "Tool not found"}}''\<close>

definition tool_error_object :: json where
  "tool_error_object = JObj [(''code'', JInt (- 32601)), (''message'', JStr ''Tool not found'')]"

definition tool_error_json :: json where
  "tool_error_json =
     JObj [(''jsonrpc'', JStr ''2.0''), (''id'', JInt 2), (''error'', tool_error_object)]"

definition mcp_tool_error_text :: string where
  \<open>mcp_tool_error_text =
     ''{"jsonrpc": "2.0", "id": "2", "error": {"code": -32601, "message": "Tool not found"}}''\<close>

definition mcp_tool_error_json :: json where
  "mcp_tool_error_json =
     JObj [(''jsonrpc'', JStr ''2.0''), (''id'', JStr ''2''), (''error'', tool_error_object)]"

definition tool_result_text :: string where
  \<open>tool_result_text = ''{"jsonrpc": "2.0", "id": 2, "result": {"content": []}}''\<close>

definition tool_result_json :: json where
  "tool_result_json =
     JObj [(''jsonrpc'', JStr ''2.0''), (''id'', JInt 2),
           (''result'', JObj [(''content'', JArr [])])]"

definition mcp_tool_result_text :: string where
  \<open>mcp_tool_result_text = ''{"jsonrpc": "2.0", "id": "2", "result": {"content": []}}''\<close>

definition mcp_tool_result_json :: json where
  "mcp_tool_result_json =
     JObj [(''jsonrpc'', JStr ''2.0''), (''id'', JStr ''2''),
           (''result'', JObj [(''content'', JArr [])])]"

definition progress_text :: string where
  \<open>progress_text = ''{"jsonrpc": "2.0", "method": "notifications/progress"}''\<close>

definition progress_json :: json where
  "progress_json =
     JObj [(''jsonrpc'', JStr ''2.0''), (''method'', JStr ''notifications/progress'')]"

definition test_loads :: "string \<Rightarrow> json option" where
  "test_loads =
     map_of [(init_ok_text, init_ok_json), (init_error_text, init_error_json),
             (tool_error_text, tool_error_json), (mcp_tool_error_text, mcp_tool_error_json),
             (tool_result_text, tool_result_json),
             (mcp_tool_result_text, mcp_tool_result_json),
             (progress_text, progress_json), (''5'', JInt 5)]"

definition test_codec :: codec where
  "test_codec = \<lparr>decode = ascii_decode, encode = ascii_encode, loads = test_loads,
                  dumps = show_json\<rparr>"

definition idle_socket :: socket where
  "idle_socket = \<lparr>incoming = [], send_script = [], close_raises = False, recv_log = [],
                   sent = [], closed = False\<rparr>"

definition fresh_client :: SessionMCPClient where
  "fresh_client = \<lparr>sock = None, request_id = 0, initialized = False, server_info = JObj [],
                    session_state = UNINITIALIZED\<rparr>"

text \<open>A message as one length-prefixed frame, and as one newline-terminated line.\<close>

definition frame_of :: "string \<Rightarrow> byte list" where
  "frame_of str =
     (case to_bytes4_big (length (ascii_encode str)) of
        None \<Rightarrow> []
      | Some len4 \<Rightarrow> len4 @ ascii_encode str)"

definition line_of :: "string \<Rightarrow> byte list" where
  "line_of str = ascii_encode (str @ [newline])"

text \<open>A connected client whose peer will deliver the given events.\<close>

definition connected :: "recv_event list \<Rightarrow> SessionMCPClient" where
  "connected evs = fresh_client\<lparr>sock := Some (idle_socket\<lparr>incoming := evs\<rparr>)\<rparr>"

text \<open>
  The frame of the two-byte payload \<^verbatim>\<open>{}\<close> arriving in four pieces, the first of one
  byte, with one byte of the next frame already behind it.
\<close>

definition framed_example :: SessionMCPClient where
  "framed_example =
     fresh_client\<lparr>sock := Some (idle_socket
       \<lparr>incoming := [Data [0], Data [0, 0], Data [2, 0x7B], Data [0x7D, 0xFF]]\<rparr>)\<rparr>"

text \<open>Frames of an empty payload and of a one-byte payload, arriving byte by byte.\<close>

definition empty_frame_example :: SessionMCPClient where
  "empty_frame_example = connected [Data [0], Data [0], Data [0], Data [0]]"

definition one_byte_frame_example :: SessionMCPClient where
  "one_byte_frame_example = connected [Data [0], Data [0], Data [0], Data [1], Data [0x41]]"

text \<open>A header that declares 1 MiB + 1 bytes, followed by one more byte.\<close>

definition oversize_example :: SessionMCPClient where
  "oversize_example =
     fresh_client\<lparr>sock := Some (idle_socket
       \<lparr>incoming := [Data [0x00, 0x10], Data [0x00, 0x01, 0x41]]\<rparr>)\<rparr>"

text \<open>
  A connected client whose peer answers \<^verbatim>\<open>initialize\<close> with a result, and the same
  client on a connection where the first \<^verbatim>\<open>sendall\<close> succeeds and the second raises.
\<close>

definition init_ok_client :: SessionMCPClient where
  "init_ok_client = connected [Data (frame_of init_ok_text)]"

definition init_send_fails_client :: SessionMCPClient where
  "init_send_fails_client =
     fresh_client\<lparr>sock := Some (idle_socket\<lparr>incoming := [Data (frame_of init_ok_text)],
                                            send_script := [True, False]\<rparr>)\<rparr>"

text \<open>A connected client whose peer never answers, and one whose peer answers with an error.\<close>

definition silent_client :: SessionMCPClient where
  "silent_client = connected []"

definition init_error_client :: SessionMCPClient where
  "init_error_client = connected [Data (frame_of init_error_text)]"

text \<open>A connected client whose peer answers with the JSON number 5.\<close>

definition scalar_reply_client :: SessionMCPClient where
  "scalar_reply_client = connected [Data (frame_of ''5'')]"

text \<open>
  Clients after a successful \<^verbatim>\<open>initialize\<close> (one request made), on a connection
  whose peer will deliver the given events.
\<close>

definition ready :: "recv_event list \<Rightarrow> SessionMCPClient" where
  "ready evs =
     \<lparr>sock = Some (idle_socket\<lparr>incoming := evs\<rparr>), request_id = 1, initialized = True,
      server_info = JObj [(''serverInfo'', JObj [(''name'', JStr ''esp'')])],
      session_state = ACTIVE\<rparr>"

definition mcp_ready :: "recv_event list \<Rightarrow> MCPClient" where
  "mcp_ready evs =
     \<lparr>mcp_sock = Some (idle_socket\<lparr>incoming := evs\<rparr>), mcp_request_id = 1,
      mcp_initialized = True, mcp_server_info = JObj [(''name'', JStr ''esp'')]\<rparr>"

text \<open>
  The peer answers \<^verbatim>\<open>tools/call\<close> for a tool it does not have with error -32601;
  the same call on a connection that stays silent, and on one that the peer has closed.
\<close>

definition tool_error_client :: SessionMCPClient where
  "tool_error_client = ready [Data (frame_of tool_error_text)]"

definition tool_silent_client :: SessionMCPClient where
  "tool_silent_client = ready []"

definition mcp_tool_error_client :: MCPClient where
  "mcp_tool_error_client = mcp_ready [Data (line_of mcp_tool_error_text)]"

definition mcp_closed_client :: MCPClient where
  "mcp_closed_client = mcp_ready [Eof]"

text \<open>
  The peer sends a progress notification before it answers request 2: as two frames to
  the length-prefixed client, as two lines in one segment to the newline client.
\<close>

definition notified_client :: SessionMCPClient where
  "notified_client = ready [Data (frame_of progress_text), Data (frame_of tool_result_text)]"

definition mcp_notified_client :: MCPClient where
  "mcp_notified_client =
     mcp_ready [Data (line_of progress_text @ line_of mcp_tool_result_text)]"

text \<open>
  The answer to request 2 arrives in two segments, and the second segment also holds a
  complete progress notification behind the answer's newline.
\<close>

definition mcp_pipelined_client :: MCPClient where
  "mcp_pipelined_client =
     mcp_ready [Data (ascii_encode (take 10 mcp_tool_result_text)),
                Data (ascii_encode (drop 10 mcp_tool_result_text @ [newline]
                                    @ progress_text @ [newline]))]"

section \<open>The words of the specification about the log file\<close>

text \<open>The field ranges of a \<^verbatim>\<open>datetime\<close> object.\<close>

definition valid_datetime :: "datetime \<Rightarrow> bool" where
  "valid_datetime t =
     (1 \<le> year t \<and> year t \<le> 9999 \<and> 1 \<le> month t \<and> month t \<le> 12 \<and> 1 \<le> day t
      \<and> day t \<le> 31 \<and> hour t < 24 \<and> minute t < 60 \<and> second t < 60
      \<and> microsecond t < 1000000)"

definition is_digit :: "char \<Rightarrow> bool" where
  "is_digit ch = (ch \<in> set ''0123456789'')"

text \<open>A template: \<open>d\<close> stands for one decimal digit, any other character for itself.\<close>

fun matches :: "string \<Rightarrow> string \<Rightarrow> bool" where
  "matches [] [] = True"
| "matches (p # ps) (ch # chs) =
     ((if p = CHR ''d'' then is_digit ch else ch = p) \<and> matches ps chs)"
| "matches _ _ = False"

text \<open>An ISO-8601 timestamp: date, \<open>T\<close>, time, with or without six fractional digits.\<close>

definition iso8601 :: "string \<Rightarrow> bool" where
  "iso8601 str =
     (matches ''dddd-dd-ddTdd:dd:dd'' str \<or> matches ''dddd-dd-ddTdd:dd:dd.dddddd'' str)"

text \<open>A tag that shows \<open>str\<close> right-aligned in a field of width \<open>w\<close>.\<close>

definition right_aligned :: "nat \<Rightarrow> string \<Rightarrow> string \<Rightarrow> bool" where
  "right_aligned w str tag =
     (tag = replicate (length tag - length str) (CHR '' '') @ str
      \<and> length tag = max w (length str))"

text \<open>An entry and a runner for concrete runs.\<close>

definition boot_entry :: LogEntry where
  "boot_entry =
     \<lparr>timestamp = \<lparr>year = 2025, month = 1, day = 2, hour = 3, minute = 4, second = 5,
                    microsecond = 6789\<rparr>,
      source = ''CLIENT'', level = ''TEST'', message = ''Starting test'', raw_data = None\<rparr>"

definition warn_entry :: LogEntry where
  "warn_entry =
     \<lparr>timestamp = \<lparr>year = 2025, month = 1, day = 2, hour = 3, minute = 4, second = 6,
                    microsecond = 0\<rparr>,
      source = ''ESP8266'', level = ''WARNING'', message = ''[wifi] retry'',
      raw_data = Some ''W (123) wifi: retry''\<rparr>"

definition new_runner :: IntegratedTestRunner where
  "new_runner =
     \<lparr>esp_ip = ''192.168.1.100'', serial_port = ''/dev/ttyUSB0'', baud_rate = 74880,
      log_queue = [], running = False, log_file = None, console = []\<rparr>"

definition start_time :: datetime where
  "start_time = \<lparr>year = 2025, month = 1, day = 2, hour = 3, minute = 4, second = 0,
                  microsecond = 250000\<rparr>"

section \<open>The consumer thread and \<^verbatim>\<open>stop_logging\<close>, interleaved\<close>

text \<open>
  The consumer thread runs \<^verbatim>\<open>_process_log_queue\<close> while the main thread runs
  \<^verbatim>\<open>stop_logging\<close> and producers put entries into the queue. Each thread advances
  by one statement at a time and a schedule says which thread moves next. The consumer
  is about to test \<^verbatim>\<open>self.running\<close>, about to call \<^verbatim>\<open>get\<close>, about to display
  or to write the entry it holds, about to flush, or has left the loop.
\<close>

datatype consumer_pc = CTest | CGet | CDisplay LogEntry | CWrite LogEntry | CFlush | CExit

datatype stopper_pc = SClear | SMonitor | SClose | SDone

record aggregator =
  runner :: IntegratedTestRunner
  consumer :: consumer_pc
  stopper :: stopper_pc

text \<open>
  One statement of \<^verbatim>\<open>_process_log_queue\<close>. \<^verbatim>\<open>get(timeout=0.1)\<close> on an empty queue
  ends in \<^verbatim>\<open>queue.Empty\<close> and \<^verbatim>\<open>continue\<close>; an exception of the write or the flush
  (the file is closed) is caught by the loop and the loop goes on.
\<close>

definition process_log_queue_step :: "aggregator \<Rightarrow> aggregator" where
  "process_log_queue_step a =
     (case consumer a of
        CTest \<Rightarrow> a\<lparr>consumer := (if running (runner a) then CGet else CExit)\<rparr>
      | CGet \<Rightarrow>
          (case log_queue (runner a) of
             [] \<Rightarrow> a\<lparr>consumer := CTest\<rparr>
           | entry # queue \<Rightarrow>
               a\<lparr>runner := (runner a)\<lparr>log_queue := queue\<rparr>, consumer := CDisplay entry\<rparr>)
      | CDisplay entry \<Rightarrow>
          a\<lparr>runner := display_log_entry entry (runner a), consumer := CWrite entry\<rparr>
      | CWrite entry \<Rightarrow>
          (case log_file (runner a) of
             None \<Rightarrow> a\<lparr>consumer := CTest\<rparr>
           | Some f \<Rightarrow>
               (case file_write (log_line entry) f of
                  (Raise e, f1) \<Rightarrow> a\<lparr>consumer := CTest\<rparr>
                | (Ret u, f1) \<Rightarrow>
                    a\<lparr>runner := (runner a)\<lparr>log_file := Some f1\<rparr>, consumer := CFlush\<rparr>))
      | CFlush \<Rightarrow>
          (case log_file (runner a) of
             None \<Rightarrow> a\<lparr>consumer := CTest\<rparr>
           | Some f \<Rightarrow>
               a\<lparr>runner := (runner a)\<lparr>log_file := Some (snd (file_flush f))\<rparr>,
                 consumer := CTest\<rparr>)
      | CExit \<Rightarrow> a)"

text \<open>
  One statement of \<^verbatim>\<open>stop_logging\<close>: clear the flag, stop the serial monitor, close
  the file if there is one. There is no \<^verbatim>\<open>join\<close> and no look at the queue.
\<close>

definition stop_logging_step :: "aggregator \<Rightarrow> aggregator" where
  "stop_logging_step a =
     (case stopper a of
        SClear \<Rightarrow> a\<lparr>runner := (runner a)\<lparr>running := False\<rparr>, stopper := SMonitor\<rparr>
      | SMonitor \<Rightarrow> a\<lparr>stopper := SClose\<rparr>
      | SClose \<Rightarrow>
          a\<lparr>runner := (runner a)\<lparr>log_file := map_option file_close (log_file (runner a))\<rparr>,
            stopper := SDone\<rparr>
      | SDone \<Rightarrow> a)"

text \<open>\<^verbatim>\<open>self.log_queue.put(log_entry)\<close> by a producer.\<close>

definition put_entry :: "LogEntry \<Rightarrow> aggregator \<Rightarrow> aggregator" where
  "put_entry entry a = a\<lparr>runner := (runner a)\<lparr>log_queue := log_queue (runner a) @ [entry]\<rparr>\<rparr>"

datatype action = Consume | Stop | Put LogEntry

fun do_action :: "action \<Rightarrow> aggregator \<Rightarrow> aggregator" where
  "do_action Consume a = process_log_queue_step a"
| "do_action Stop a = stop_logging_step a"
| "do_action (Put entry) a = put_entry entry a"

fun run_schedule :: "action list \<Rightarrow> aggregator \<Rightarrow> aggregator" where
  "run_schedule [] a = a"
| "run_schedule (x # xs) a = run_schedule xs (do_action x a)"

text \<open>
  How many more entries the consumer can take from the queue once the flag is down; and
  the text that has gone to the log file, flushed or not.
\<close>

fun gets_left :: "consumer_pc \<Rightarrow> nat" where
  "gets_left CGet = 1"
| "gets_left _ = 0"

definition log_text :: "IntegratedTestRunner \<Rightarrow> string" where
  "log_text r = (case log_file r of None \<Rightarrow> [] | Some f \<Rightarrow> flushed f @ pending f)"

text \<open>
  The entry the consumer holds in its local \<^verbatim>\<open>log_entry\<close> and has yet to display,
  and the one it has yet to write: \<^verbatim>\<open>get\<close> has returned it and the statement that
  displays it, or the one that writes it, has not run yet.
\<close>

fun held_for_display :: "consumer_pc \<Rightarrow> LogEntry list" where
  "held_for_display (CDisplay entry) = [entry]"
| "held_for_display _ = []"

fun held_for_write :: "consumer_pc \<Rightarrow> LogEntry list" where
  "held_for_write (CDisplay entry) = [entry]"
| "held_for_write (CWrite entry) = [entry]"
| "held_for_write _ = []"

text \<open>The entries that the producers put into the queue during a schedule, in order.\<close>

fun put_entries :: "action list \<Rightarrow> LogEntry list" where
  "put_entries [] = []"
| "put_entries (Put entry # xs) = entry # put_entries xs"
| "put_entries (Consume # xs) = put_entries xs"
| "put_entries (Stop # xs) = put_entries xs"

text \<open>
  What a run from \<open>a\<close> to \<open>b\<close> has done with the entries, once the flag is down: \<open>k\<close>
  entries were taken from the head of the queue, \<open>added\<close> were put at its end, \<open>shown\<close>
  went through \<^verbatim>\<open>_display_log_entry\<close>, \<open>handled\<close> went past the write statement and
  \<open>written\<close>, those of them that found the file open, are in the log file.
\<close>

definition entries_after_stop ::
  "aggregator \<Rightarrow> aggregator \<Rightarrow> nat \<Rightarrow> LogEntry list \<Rightarrow> LogEntry list \<Rightarrow> LogEntry list
    \<Rightarrow> LogEntry list \<Rightarrow> bool" where
  "entries_after_stop a b k added shown handled written \<longleftrightarrow>
     k + gets_left (consumer b) \<le> gets_left (consumer a)
     \<and> k \<le> length (log_queue (runner a) @ added)
     \<and> log_queue (runner b) = drop k (log_queue (runner a) @ added)
     \<and> shown @ held_for_display (consumer b)
         = held_for_display (consumer a) @ take k (log_queue (runner a) @ added)
     \<and> console (runner b) = console (fold display_log_entry shown (runner a))
     \<and> handled @ held_for_write (consumer b)
         = held_for_write (consumer a) @ take k (log_queue (runner a) @ added)
     \<and> set written \<subseteq> set handled \<and> length written \<le> length handled
     \<and> log_text (runner b) = log_text (runner a) @ concat (map log_line written)"

text \<open>
  The aggregator right after \<^verbatim>\<open>start_logging\<close> with a log file: the flag is up, the
  consumer thread is at its loop test, and the main thread has yet to call
  \<^verbatim>\<open>stop_logging\<close>.
\<close>

definition started :: aggregator where
  "started =
     \<lparr>runner = snd (start_logging start_time (Some ''run.log'') new_runner),
      consumer = CTest, stopper = SClear\<rparr>"

text \<open>
  The consumer passes its loop test, two entries are put into the queue, and the main
  thread clears the flag: both entries are in the queue, none has been taken.
\<close>

definition flag_down :: aggregator where
  "flag_down = run_schedule [Consume, Put boot_entry, Put warn_entry, Stop] started"

section \<open>Facts about the framing\<close>

lemma from_bytes_big_4:
  "from_bytes_big [a, b, c, d] = ((unat a * 256 + unat b) * 256 + unat c) * 256 + unat d"
  by (simp add: from_bytes_big_def)

lemma to_bytes4_big_length: "to_bytes4_big n = Some hdr \<Longrightarrow> length hdr = 4"
  by (auto simp: to_bytes4_big_def split: if_splits)

lemma sock_recv_data:
  assumes "sock_recv n s = (RBytes chunk, s')" and "chunk \<noteq> []"
  shows "wire_data (incoming s) = chunk @ wire_data (incoming s')"
  using assms
  by (auto simp: sock_recv_def Let_def split: list.splits recv_event.splits if_splits)

lemma sock_recv_log: "recv_log (snd (sock_recv n s)) = recv_log s @ [n]"
  by (simp add: sock_recv_def Let_def split: list.splits recv_event.splits)

lemma sock_recv_chunk:
  assumes "incoming s = Data ch # rest" and "0 < n"
  shows "sock_recv n s =
    (RBytes (take n ch),
     s\<lparr>recv_log := recv_log s @ [n],
       incoming := (if length ch \<le> n then rest else Data (drop n ch) # rest)\<rparr>)"
  using assms by (simp add: sock_recv_def Let_def)


lemma from_to_bytes4_big:
  assumes "to_bytes4_big n = Some hdr"
  shows "from_bytes_big hdr = n"
proof -
  from assms have n: "n < 2 ^ 32"
    and hdr: "hdr = [of_nat (n div 2 ^ 24), of_nat (n div 2 ^ 16), of_nat (n div 2 ^ 8), of_nat n]"
    by (auto simp: to_bytes4_big_def split: if_splits)
  define a where "a = n div 256"
  define b where "b = a div 256"
  define c where "c = b div 256"
  have "n div (256 * 256) = a div 256"
    unfolding a_def by (rule div_mult2_eq)
  then have e2: "n div 65536 = b" by (simp add: b_def)
  have "n div (65536 * 256) = n div 65536 div 256"
    by (rule div_mult2_eq)
  then have e3: "n div 16777216 = c" by (simp add: e2 c_def)
  from n have "c < 256" unfolding e3 [symmetric] by simp
  then have c: "c mod 256 = c" by simp
  have na: "n = a * 256 + n mod 256" by (simp add: a_def)
  have ab: "a = b * 256 + a mod 256" by (simp add: b_def)
  have bc: "b = c * 256 + b mod 256" by (simp add: c_def)
  have "from_bytes_big hdr = ((c mod 256 * 256 + b mod 256) * 256 + a mod 256) * 256 + n mod 256"
    unfolding hdr from_bytes_big_4 by (simp add: unat_of_nat e2 e3 a_def [symmetric])
  also have "\<dots> = ((c * 256 + b mod 256) * 256 + a mod 256) * 256 + n mod 256"
    by (simp only: c)
  also have "\<dots> = (b * 256 + a mod 256) * 256 + n mod 256"
    using bc by simp
  also have "\<dots> = a * 256 + n mod 256"
    using ab by simp
  also have "\<dots> = n" using na by simp
  finally show ?thesis .
qed

lemma sock_recv_len: "sock_recv n s = (RBytes chunk, s') \<Longrightarrow> length chunk \<le> n"
  by (auto simp: sock_recv_def Let_def split: list.splits recv_event.splits)

lemma read_loop_Some:
  "read_loop n buf s = (Some out, s') \<Longrightarrow>
     \<exists>got. out = buf @ got \<and> wire_data (incoming s) = got @ wire_data (incoming s')
       \<and> (length buf \<le> n \<longrightarrow> length out = n)"
proof (induction n buf s rule: read_loop.induct)
  case (1 n buf s)
  show ?case
  proof (cases "length buf < n")
    case False
    with "1.prems" show ?thesis by (simp add: read_loop.simps)
  next
    case True
    obtain r s1 where rs: "sock_recv (n - length buf) s = (r, s1)" by force
    with True "1.prems" obtain chunk where r: "r = RBytes chunk" and ne: "chunk \<noteq> []"
      and rec: "read_loop n (buf @ chunk) s1 = (Some out, s')"
      by (cases r) (auto simp: read_loop.simps [of n buf s] split: if_splits)
    from rs r have len: "length chunk \<le> n - length buf"
      by (simp add: sock_recv_len)
    from "1.IH" [OF True rs [symmetric, unfolded r] refl ne rec]
    obtain got where got: "out = (buf @ chunk) @ got"
      "wire_data (incoming s1) = got @ wire_data (incoming s')"
      "length (buf @ chunk) \<le> n \<longrightarrow> length out = n" by blast
    from sock_recv_data [OF rs [unfolded r] ne] got(2)
    have "wire_data (incoming s) = (chunk @ got) @ wire_data (incoming s')" by simp
    moreover from got(1) have "out = buf @ (chunk @ got)" by simp
    moreover from got(3) len True have "length out = n" by simp
    ultimately show ?thesis by blast
  qed
qed

lemma read_loop_done: "n \<le> length buf \<Longrightarrow> read_loop n buf s = (Some buf, s)"
  by (simp add: read_loop.simps)

lemma read_loop_chunks:
  assumes "incoming s = map Data chunks @ rest"
    and "\<forall>ch\<in>set chunks. ch \<noteq> []"
    and "n \<le> length buf + length (concat chunks)"
  shows "\<exists>s' chunks'. read_loop n buf s = (Some (buf @ take (n - length buf) (concat chunks)), s')
           \<and> incoming s' = map Data chunks' @ rest
           \<and> (\<forall>ch\<in>set chunks'. ch \<noteq> [])
           \<and> concat chunks' = drop (n - length buf) (concat chunks)"
  using assms
proof (induction chunks arbitrary: buf s)
  case Nil
  then show ?case by (simp add: read_loop_done)
next
  case (Cons ch chunks)
  show ?case
  proof (cases "n \<le> length buf")
    case True
    with Cons.prems show ?thesis
      by (intro exI [of _ s] exI [of _ "ch # chunks"]) (simp add: read_loop_done)
  next
    case False
    then have need: "0 < n - length buf" by simp
    from Cons.prems(1) have inc: "incoming s = Data ch # (map Data chunks @ rest)" by simp
    from Cons.prems(2) have ch: "ch \<noteq> []" and chs: "\<forall>c\<in>set chunks. c \<noteq> []" by simp_all
    let ?k = "n - length buf"
    let ?s1 = "s\<lparr>recv_log := recv_log s @ [?k],
       incoming := (if length ch \<le> ?k then map Data chunks @ rest
                    else Data (drop ?k ch) # (map Data chunks @ rest))\<rparr>"
    have recv: "sock_recv ?k s = (RBytes (take ?k ch), ?s1)"
      by (rule sock_recv_chunk [OF inc need])
    from ch need have tk: "take ?k ch \<noteq> []" by (cases ch) auto
    have step: "read_loop n buf s = read_loop n (buf @ take ?k ch) ?s1"
      using False recv tk by (subst read_loop.simps) simp
    show ?thesis
    proof (cases "length ch \<le> ?k")
      case True
      then have inc1: "incoming ?s1 = map Data chunks @ rest" by simp
      from True Cons.prems(3) have "n \<le> length (buf @ ch) + length (concat chunks)" by simp
      from Cons.IH [OF inc1 chs this]
      obtain s' chunks' where
        "read_loop n (buf @ ch) ?s1 = (Some ((buf @ ch) @ take (n - length (buf @ ch)) (concat chunks)), s')"
        "incoming s' = map Data chunks' @ rest" "\<forall>c\<in>set chunks'. c \<noteq> []"
        "concat chunks' = drop (n - length (buf @ ch)) (concat chunks)" by blast
      with True step show ?thesis
        by (intro exI [of _ s'] exI [of _ chunks']) simp
    next
      case False
      with \<open>\<not> n \<le> length buf\<close> have "n \<le> length (buf @ take ?k ch)" by simp
      then have "read_loop n (buf @ take ?k ch) ?s1 = (Some (buf @ take ?k ch), ?s1)"
        by (rule read_loop_done)
      with False step chs show ?thesis
        by (intro exI [of _ ?s1] exI [of _ "drop ?k ch # chunks"]) simp
    qed
  qed
qed

lemma sock_recv_keeps:
  "send_script (snd (sock_recv k s)) = send_script s \<and> sent (snd (sock_recv k s)) = sent s
   \<and> closed (snd (sock_recv k s)) = closed s
   \<and> close_raises (snd (sock_recv k s)) = close_raises s"
  by (simp add: sock_recv_def Let_def split: list.splits recv_event.splits)

lemma read_loop_keeps:
  "send_script (snd (read_loop n buf s)) = send_script s
   \<and> sent (snd (read_loop n buf s)) = sent s
   \<and> closed (snd (read_loop n buf s)) = closed s
   \<and> close_raises (snd (read_loop n buf s)) = close_raises s"
proof (induction n buf s rule: read_loop.induct)
  case (1 n buf s)
  show ?case
  proof (cases "length buf < n")
    case False
    then show ?thesis by (simp add: read_loop.simps)
  next
    case True
    obtain r s1 where rs: "sock_recv (n - length buf) s = (r, s1)" by force
    from sock_recv_keeps [of "n - length buf" s] rs
    have s1: "send_script s1 = send_script s" "sent s1 = sent s" "closed s1 = closed s"
      "close_raises s1 = close_raises s" by simp_all
    show ?thesis
    proof (cases "\<exists>chunk. r = RBytes chunk \<and> chunk \<noteq> []")
      case False
      with True rs s1 show ?thesis
        by (cases r) (auto simp: read_loop.simps [of n buf s])
    next
      case True
      then obtain chunk where r: "r = RBytes chunk" and ne: "chunk \<noteq> []" by blast
      from "1.IH" [OF \<open>length buf < n\<close> rs [symmetric, unfolded r] refl ne] s1
        \<open>length buf < n\<close> rs r ne
      show ?thesis
        by (simp add: read_loop.simps [of n buf s])
    qed
  qed
qed

lemma read_loop_log:
  "\<exists>new. recv_log (snd (read_loop n buf s)) = recv_log s @ new
     \<and> (\<forall>k\<in>set new. 0 < k \<and> k \<le> n - length buf)"
proof (induction n buf s rule: read_loop.induct)
  case (1 n buf s)
  show ?case
  proof (cases "length buf < n")
    case False
    then show ?thesis by (simp add: read_loop.simps)
  next
    case True
    obtain r s1 where rs: "sock_recv (n - length buf) s = (r, s1)" by force
    with sock_recv_log [of "n - length buf" s]
    have lg: "recv_log s1 = recv_log s @ [n - length buf]" by simp
    show ?thesis
    proof (cases "\<exists>chunk. r = RBytes chunk \<and> chunk \<noteq> []")
      case False
      with True rs lg show ?thesis
        by (cases r) (auto simp: read_loop.simps [of n buf s])
    next
      case True
      then obtain chunk where r: "r = RBytes chunk" and ne: "chunk \<noteq> []" by blast
      from "1.IH" [OF \<open>length buf < n\<close> rs [symmetric, unfolded r] refl ne]
      obtain new where new: "recv_log (snd (read_loop n (buf @ chunk) s1)) = recv_log s1 @ new"
        "\<forall>k\<in>set new. 0 < k \<and> k \<le> n - length (buf @ chunk)" by blast
      have "recv_log (snd (read_loop n buf s)) = recv_log s @ ((n - length buf) # new)"
        using \<open>length buf < n\<close> rs r ne lg new(1) by (simp add: read_loop.simps [of n buf s])
      moreover have "\<forall>k\<in>set ((n - length buf) # new). 0 < k \<and> k \<le> n - length buf"
        using new(2) \<open>length buf < n\<close> by auto
      ultimately show ?thesis by blast
    qed
  qed
qed

lemma wire_data_chunks: "wire_data (map Data chunks @ rest) = concat chunks @ wire_data rest"
  by (induction chunks) simp_all

lemma receive_frame_Some:
  assumes "receive_frame cdc s = (Some txt, s')"
  shows "\<exists>hdr payload. length hdr = 4 \<and> length payload = from_bytes_big hdr
           \<and> wire_data (incoming s) = hdr @ payload @ wire_data (incoming s')
           \<and> decode cdc payload = Some txt"
proof -
  obtain r1 s1 where r1: "read_loop 4 [] s = (r1, s1)" by force
  with assms obtain hdr where hdr: "r1 = Some hdr"
    by (cases r1) (auto simp: receive_frame_def)
  from read_loop_Some [OF r1 [unfolded hdr]]
  have h: "length hdr = 4" "wire_data (incoming s) = hdr @ wire_data (incoming s1)" by auto
  obtain r2 s2 where r2: "read_loop (from_bytes_big hdr) [] s1 = (r2, s2)" by force
  with assms r1 hdr obtain payload where pl: "r2 = Some payload" and s2: "s2 = s'"
    and dec: "decode cdc payload = Some txt"
    by (cases r2) (auto simp: receive_frame_def Let_def split: if_splits)
  from read_loop_Some [OF r2 [unfolded pl]] s2
  have "length payload = from_bytes_big hdr"
    "wire_data (incoming s1) = payload @ wire_data (incoming s')" by auto
  with h dec show ?thesis by auto
qed

lemma receive_frame_chunks:
  assumes inc: "incoming s = map Data chunks @ rest"
    and ne: "\<forall>ch\<in>set chunks. ch \<noteq> []"
    and hdr: "to_bytes4_big (length payload) = Some hdr"
    and cap: "length payload \<le> 1024 * 1024"
    and cat: "concat chunks = hdr @ payload @ extra"
  shows "\<exists>s'. receive_frame cdc s = (decode cdc payload, s')
           \<and> wire_data (incoming s') = extra @ wire_data rest"
proof -
  have l4: "length hdr = 4" by (rule to_bytes4_big_length [OF hdr])
  have "4 \<le> length ([]::byte list) + length (concat chunks)" using cat l4 by simp
  from read_loop_chunks [OF inc ne this]
  obtain s1 chunks1 where s1: "read_loop 4 [] s = (Some (take 4 (concat chunks)), s1)"
    "incoming s1 = map Data chunks1 @ rest" "\<forall>ch\<in>set chunks1. ch \<noteq> []"
    "concat chunks1 = drop 4 (concat chunks)" by auto
  from cat l4 have tk: "take 4 (concat chunks) = hdr" and dr: "concat chunks1 = payload @ extra"
    using s1(4) by simp_all
  have "length payload \<le> length ([]::byte list) + length (concat chunks1)" using dr by simp
  from read_loop_chunks [OF s1(2) s1(3) this]
  obtain s2 chunks2 where s2:
    "read_loop (length payload) [] s1 = (Some (take (length payload) (concat chunks1)), s2)"
    "incoming s2 = map Data chunks2 @ rest"
    "concat chunks2 = drop (length payload) (concat chunks1)" by auto
  from s2(2,3) dr have "wire_data (incoming s2) = extra @ wire_data rest"
    by (simp add: wire_data_chunks)
  moreover have "receive_frame cdc s = (decode cdc payload, s2)"
    using s1(1) s2(1) tk dr cap from_to_bytes4_big [OF hdr]
    by (simp add: receive_frame_def)
  ultimately show ?thesis by blast
qed

lemma receive_frame_oversize:
  assumes inc: "incoming s = map Data chunks @ rest"
    and ne: "\<forall>ch\<in>set chunks. ch \<noteq> []"
    and cat: "concat chunks = hdr @ extra"
    and l4: "length hdr = 4"
    and big: "1024 * 1024 < from_bytes_big hdr"
  shows "\<exists>s' new. receive_frame cdc s = (None, s')
           \<and> wire_data (incoming s') = extra @ wire_data rest
           \<and> recv_log s' = recv_log s @ new \<and> (\<forall>k\<in>set new. k \<le> 4)"
proof -
  have "4 \<le> length ([]::byte list) + length (concat chunks)" using cat l4 by simp
  from read_loop_chunks [OF inc ne this]
  obtain s1 chunks1 where s1: "read_loop 4 [] s = (Some (take 4 (concat chunks)), s1)"
    "incoming s1 = map Data chunks1 @ rest"
    "concat chunks1 = drop 4 (concat chunks)" by auto
  from cat l4 have tk: "take 4 (concat chunks) = hdr" by simp
  from read_loop_log [of 4 "[]" s] s1(1)
  obtain new where new: "recv_log s1 = recv_log s @ new" "\<forall>k\<in>set new. k \<le> 4" by auto
  have "receive_frame cdc s = (None, s1)"
    using s1(1) tk big by (simp add: receive_frame_def)
  moreover from s1(2,3) cat l4 have "wire_data (incoming s1) = extra @ wire_data rest"
    by (simp add: wire_data_chunks)
  ultimately show ?thesis using new by blast
qed

lemmas example_defs =
  test_codec_def fresh_client_def idle_socket_def ascii_decode_def ascii_encode_def
  char_of_byte_def connected_def frame_of_def to_bytes4_big_def

lemmas framing_defs =
  receive_framed_message_def receive_frame_def read_loop.simps sock_recv_def from_bytes_big_def

section \<open>The length-prefixed framing: C2 and C3\<close>

text \<open>
  C2. Length-prefixed framing. Whatever the network does, a text that
  \<^verbatim>\<open>_receive_framed_message\<close> returns (the only thing \<^verbatim>\<open>send_request\<close> parses) is
  the decoding of exactly \<open>S\<close> payload bytes that followed exactly four header bytes on
  the wire, \<open>S\<close> being the big-endian value of the header. And for every payload of a
  size \<open>S\<close> up to the cap (0 and 1 included) whose frame arrives in non-empty pieces of
  any sizes, pieces of one byte included, the routine returns the decoding of that
  payload and has taken exactly the frame from the wire.
\<close>

theorem C2_framed_receive_exact:
  "(receive_framed_message cdc c = (Some reply, c') \<longrightarrow>
      (\<exists>s s' hdr payload. sock c = Some s \<and> sock c' = Some s' \<and> length hdr = 4
         \<and> length payload = from_bytes_big hdr
         \<and> wire_data (incoming s) = hdr @ payload @ wire_data (incoming s')
         \<and> decode cdc payload = Some reply))
   \<and> (sock c = Some skt \<and> incoming skt = map Data chunks @ rest
        \<and> (\<forall>ch\<in>set chunks. ch \<noteq> [])
        \<and> to_bytes4_big (length body) = Some prefix \<and> length body \<le> 1024 * 1024
        \<and> concat chunks = prefix @ body @ extra \<longrightarrow>
      (\<exists>skt'. receive_framed_message cdc c = (decode cdc body, c\<lparr>sock := Some skt'\<rparr>)
         \<and> wire_data (incoming skt') = extra @ wire_data rest))"
proof (intro conjI impI)
  assume run: "receive_framed_message cdc c = (Some reply, c')"
  then obtain s where s: "sock c = Some s"
    by (cases "sock c") (auto simp: receive_framed_message_def)
  obtain r s' where rf: "receive_frame cdc s = (r, s')" by force
  with run s have "r = Some reply" and c': "c' = c\<lparr>sock := Some s'\<rparr>"
    by (auto simp: receive_framed_message_def)
  with rf have "receive_frame cdc s = (Some reply, s')" by simp
  from receive_frame_Some [OF this] s c'
  show "\<exists>s s' hdr payload. sock c = Some s \<and> sock c' = Some s' \<and> length hdr = 4
         \<and> length payload = from_bytes_big hdr
         \<and> wire_data (incoming s) = hdr @ payload @ wire_data (incoming s')
         \<and> decode cdc payload = Some reply"
    by auto
next
  assume a: "sock c = Some skt \<and> incoming skt = map Data chunks @ rest
        \<and> (\<forall>ch\<in>set chunks. ch \<noteq> [])
        \<and> to_bytes4_big (length body) = Some prefix \<and> length body \<le> 1024 * 1024
        \<and> concat chunks = prefix @ body @ extra"
  then have skt: "sock c = Some skt" and inc: "incoming skt = map Data chunks @ rest"
    and ne: "\<forall>ch\<in>set chunks. ch \<noteq> []"
    and hdr: "to_bytes4_big (length body) = Some prefix"
    and cap: "length body \<le> 1024 * 1024"
    and cat: "concat chunks = prefix @ body @ extra"
    by simp_all
  from receive_frame_chunks [OF inc ne hdr cap cat, of cdc] skt
  show "\<exists>skt'. receive_framed_message cdc c = (decode cdc body, c\<lparr>sock := Some skt'\<rparr>)
         \<and> wire_data (incoming skt') = extra @ wire_data rest"
    by (auto simp: receive_framed_message_def)
qed

theorem C2_framed_receive_exact_witness:
  "receive_framed_message test_codec framed_example =
     (Some ''{}'',
      framed_example\<lparr>sock := Some (idle_socket\<lparr>incoming := [Data [0xFF]],
                                             recv_log := [4, 3, 1, 2, 1]\<rparr>)\<rparr>)
   \<and> (\<exists>s s' hdr payload. sock framed_example = Some s
         \<and> Some (idle_socket\<lparr>incoming := [Data [0xFF]], recv_log := [4, 3, 1, 2, 1]\<rparr>) = Some s'
         \<and> length hdr = 4 \<and> length payload = from_bytes_big hdr
         \<and> wire_data (incoming s) = hdr @ payload @ wire_data (incoming s')
         \<and> decode test_codec payload = Some ''{}'')
   \<and> (\<exists>skt'. receive_framed_message test_codec framed_example =
               (decode test_codec [0x7B, 0x7D], framed_example\<lparr>sock := Some skt'\<rparr>)
         \<and> wire_data (incoming skt') = [0xFF])
   \<and> (\<exists>skt'. receive_framed_message test_codec empty_frame_example =
               (Some [], empty_frame_example\<lparr>sock := Some skt'\<rparr>)
         \<and> wire_data (incoming skt') = [])
   \<and> (\<exists>skt'. receive_framed_message test_codec one_byte_frame_example =
               (Some ''A'', one_byte_frame_example\<lparr>sock := Some skt'\<rparr>)
         \<and> wire_data (incoming skt') = [])"
proof -
  let ?c' = "framed_example\<lparr>sock := Some (idle_socket\<lparr>incoming := [Data [0xFF]],
                                             recv_log := [4, 3, 1, 2, 1]\<rparr>)\<rparr>"
  let ?skt = "idle_socket\<lparr>incoming := [Data [0], Data [0, 0], Data [2, 0x7B], Data [0x7D, 0xFF]]\<rparr>"
  have run: "receive_framed_message test_codec framed_example = (Some ''{}'', ?c')"
    by (simp add: framed_example_def example_defs framing_defs)
  have hyp: "sock framed_example = Some ?skt
        \<and> incoming ?skt = map Data [[0], [0, 0], [2, 0x7B], [0x7D, 0xFF]] @ []
        \<and> (\<forall>ch\<in>set [[0], [0, 0], [2, 0x7B], [0x7D, 0xFF::byte]]. ch \<noteq> [])
        \<and> to_bytes4_big (length [0x7B, 0x7D::byte]) = Some [0, 0, 0, 2]
        \<and> length [0x7B, 0x7D::byte] \<le> 1024 * 1024
        \<and> concat [[0], [0, 0], [2, 0x7B], [0x7D, 0xFF]] = [0, 0, 0, 2] @ [0x7B, 0x7D::byte] @ [0xFF]"
    by (simp add: framed_example_def fresh_client_def idle_socket_def to_bytes4_big_def)
  note inst = C2_framed_receive_exact [where cdc = test_codec and c = framed_example
      and reply = "''{}''" and c' = "?c'" and skt = "?skt"
      and chunks = "[[0], [0, 0], [2, 0x7B], [0x7D, 0xFF]]" and rest = "[]"
      and body = "[0x7B, 0x7D]" and prefix = "[0, 0, 0, 2]" and extra = "[0xFF]"]
  from inst run have safe: "\<exists>s s' hdr payload. sock framed_example = Some s \<and> sock ?c' = Some s'
         \<and> length hdr = 4 \<and> length payload = from_bytes_big hdr
         \<and> wire_data (incoming s) = hdr @ payload @ wire_data (incoming s')
         \<and> decode test_codec payload = Some ''{}''"
    by blast
  from inst hyp have exact: "\<exists>skt'. receive_framed_message test_codec framed_example =
               (decode test_codec [0x7B, 0x7D], framed_example\<lparr>sock := Some skt'\<rparr>)
         \<and> wire_data (incoming skt') = [0xFF] @ wire_data []"
    by blast
  have hyp0: "sock empty_frame_example = Some (idle_socket\<lparr>incoming := map Data [[0], [0], [0], [0]]\<rparr>)
        \<and> incoming (idle_socket\<lparr>incoming := map Data [[0], [0], [0], [0]]\<rparr>)
            = map Data [[0], [0], [0], [0]] @ []
        \<and> (\<forall>ch\<in>set [[0], [0], [0], [0::byte]]. ch \<noteq> [])
        \<and> to_bytes4_big (length ([]::byte list)) = Some [0, 0, 0, 0]
        \<and> length ([]::byte list) \<le> 1024 * 1024
        \<and> concat [[0], [0], [0], [0]] = [0, 0, 0, 0] @ ([]::byte list) @ []"
    by (simp add: empty_frame_example_def connected_def fresh_client_def idle_socket_def
        to_bytes4_big_def)
  from C2_framed_receive_exact [where cdc = test_codec and c = empty_frame_example
      and skt = "idle_socket\<lparr>incoming := map Data [[0], [0], [0], [0]]\<rparr>"
      and chunks = "[[0], [0], [0], [0]]" and rest = "[]"
      and body = "[]" and prefix = "[0, 0, 0, 0]" and extra = "[]"] hyp0
  have zero: "\<exists>skt'. receive_framed_message test_codec empty_frame_example =
               (Some [], empty_frame_example\<lparr>sock := Some skt'\<rparr>)
         \<and> wire_data (incoming skt') = []"
    by (simp add: test_codec_def ascii_decode_def)
  have hyp1: "sock one_byte_frame_example
          = Some (idle_socket\<lparr>incoming := map Data [[0], [0], [0], [1], [0x41]]\<rparr>)
        \<and> incoming (idle_socket\<lparr>incoming := map Data [[0], [0], [0], [1], [0x41]]\<rparr>)
            = map Data [[0], [0], [0], [1], [0x41]] @ []
        \<and> (\<forall>ch\<in>set [[0], [0], [0], [1], [0x41::byte]]. ch \<noteq> [])
        \<and> to_bytes4_big (length [0x41::byte]) = Some [0, 0, 0, 1]
        \<and> length [0x41::byte] \<le> 1024 * 1024
        \<and> concat [[0], [0], [0], [1], [0x41]] = [0, 0, 0, 1] @ [0x41::byte] @ []"
    by (simp add: one_byte_frame_example_def connected_def fresh_client_def idle_socket_def
        to_bytes4_big_def)
  from C2_framed_receive_exact [where cdc = test_codec and c = one_byte_frame_example
      and skt = "idle_socket\<lparr>incoming := map Data [[0], [0], [0], [1], [0x41]]\<rparr>"
      and chunks = "[[0], [0], [0], [1], [0x41]]" and rest = "[]"
      and body = "[0x41]" and prefix = "[0, 0, 0, 1]" and extra = "[]"] hyp1
  have one: "\<exists>skt'. receive_framed_message test_codec one_byte_frame_example =
               (Some ''A'', one_byte_frame_example\<lparr>sock := Some skt'\<rparr>)
         \<and> wire_data (incoming skt') = []"
    by (simp add: test_codec_def ascii_decode_def char_of_byte_def)
  from run safe exact zero one show ?thesis by simp
qed

text \<open>
  C3. Oversize rejection. When the four header bytes (however they are split over
  arrivals) declare a length above 1024 * 1024, \<^verbatim>\<open>_receive_framed_message\<close> returns
  \<^verbatim>\<open>None\<close>; every byte after the header is still on the wire, and no
  \<^verbatim>\<open>recv\<close> call asked for more than four bytes, so no read of the declared size was
  made.
\<close>

theorem C3_oversize_fails_closed:
  assumes "sock c = Some s"
    and "incoming s = map Data chunks @ rest"
    and "\<forall>ch\<in>set chunks. ch \<noteq> []"
    and "concat chunks = hdr @ extra"
    and "length hdr = 4"
    and "1024 * 1024 < from_bytes_big hdr"
  shows "\<exists>s' new. receive_framed_message cdc c = (None, c\<lparr>sock := Some s'\<rparr>)
           \<and> wire_data (incoming s') = extra @ wire_data rest
           \<and> recv_log s' = recv_log s @ new \<and> (\<forall>k\<in>set new. k \<le> 4)"
proof -
  from receive_frame_oversize [OF assms(2-6), of cdc]
  obtain s' new where "receive_frame cdc s = (None, s')"
    "wire_data (incoming s') = extra @ wire_data rest"
    "recv_log s' = recv_log s @ new" "\<forall>k\<in>set new. k \<le> 4" by blast
  with assms(1) show ?thesis
    by (auto simp: receive_framed_message_def)
qed

theorem C3_oversize_fails_closed_witness:
  "from_bytes_big [0x00, 0x10, 0x00, 0x01] = 1048577
   \<and> (\<exists>s' new. receive_framed_message test_codec oversize_example =
                  (None, oversize_example\<lparr>sock := Some s'\<rparr>)
         \<and> wire_data (incoming s') = [0x41]
         \<and> recv_log s' = new \<and> list_all (\<lambda>k. k \<le> 4) new)"
proof -
  let ?s = "idle_socket\<lparr>incoming := [Data [0x00, 0x10], Data [0x00, 0x01, 0x41]]\<rparr>"
  have big: "from_bytes_big [0x00, 0x10, 0x00, 0x01] = 1048577"
    by (simp add: from_bytes_big_def)
  have "\<exists>s' new. receive_framed_message test_codec oversize_example =
                  (None, oversize_example\<lparr>sock := Some s'\<rparr>)
           \<and> wire_data (incoming s') = [0x41] @ wire_data []
           \<and> recv_log s' = recv_log ?s @ new \<and> (\<forall>k\<in>set new. k \<le> 4)"
    by (rule C3_oversize_fails_closed [where s = ?s and hdr = "[0x00, 0x10, 0x00, 0x01]"
          and chunks = "[[0x00, 0x10], [0x00, 0x01, 0x41]]"])
       (simp_all add: oversize_example_def fresh_client_def idle_socket_def big)
  then show ?thesis
    by (simp add: big idle_socket_def list_all_iff)
qed

section \<open>The two clients: C4 to C7, C1 and C9\<close>

lemma send_framed_message_keeps:
  assumes "send_framed_message cdc d c = (ok, c')"
  shows "session_state c' = session_state c \<and> initialized c' = initialized c
     \<and> server_info c' = server_info c \<and> request_id c' = request_id c"
  using assms
  by (auto simp: send_framed_message_def Let_def split: option.splits prod.splits)

lemma receive_framed_message_keeps:
  assumes "receive_framed_message cdc c = (r, c')"
  shows "session_state c' = session_state c \<and> initialized c' = initialized c
     \<and> server_info c' = server_info c \<and> request_id c' = request_id c"
  using assms
  by (auto simp: receive_framed_message_def split: option.splits prod.splits)

lemma send_request_keeps:
  assumes "send_request cdc m p c = (out, c')"
  shows "session_state c' = session_state c \<and> initialized c' = initialized c
     \<and> server_info c' = server_info c \<and> request_id c' = request_id c + 1"
proof -
  let ?c1 = "c\<lparr>request_id := request_id c + 1\<rparr>"
  obtain ok c2 where s: "send_framed_message cdc (dumps cdc (make_request m p (request_id c + 1))) ?c1 = (ok, c2)"
    by force
  obtain r c3 where rc: "receive_framed_message cdc c2 = (r, c3)" by force
  note k2 = send_framed_message_keeps [OF s]
  note k3 = receive_framed_message_keeps [OF rc]
  from assms s rc have "c' = c2 \<or> c' = c3"
    by (auto simp: send_request_def get_next_id_def Let_def split: option.splits bool.splits if_splits)
  with k2 k3 show ?thesis by auto
qed

lemma send_framed_message_sent:
  assumes "send_framed_message cdc d c = (True, c')"
  shows "\<exists>s s' len4. sock c = Some s \<and> sock c' = Some s'
     \<and> to_bytes4_big (length (encode cdc d)) = Some len4
     \<and> sent s' = sent s @ [len4 @ encode cdc d] \<and> incoming s' = incoming s"
  using assms
  by (auto simp: send_framed_message_def sock_sendall_def Let_def
      split: option.splits prod.splits list.splits if_splits)

lemma py_getitem_Ret:
  "py_getitem v k = Ret x \<Longrightarrow> truthy v \<and> py_in k v = Ret True"
  by (cases v) (auto split: option.splits)

lemmas session_defs =
  initialize_def send_request_def get_next_id_def send_framed_message_def sock_sendall_def
  make_request_def init_params_def initialized_notification_def validate_response_def
  py_eq_str_def call_tool_def tool_params_def

lemmas show_defs = join_str_def quoted_def str_int_def str_nat.simps digit_char_def

lemma initialize_notification_fails:
  assumes run: "initialize cdc c = (out, c')"
    and ni: "\<not> initialized c"
    and sr: "send_request cdc ''initialize'' (Some init_params) c = (Ret response, c1)"
    and ne: "py_in ''error'' response = Ret False"
    and gi: "py_getitem response ''result'' = Ret result"
    and fails: "fst (send_framed_message cdc (dumps cdc initialized_notification)
                      (c1\<lparr>server_info := result, session_state := INITIALIZED\<rparr>)) = False"
  shows "out = Ret False \<and> session_state c' = INITIALIZED \<and> \<not> initialized c'"
proof -
  let ?c2 = "c1\<lparr>server_info := result, session_state := INITIALIZED\<rparr>"
  obtain ok c3
    where sf: "send_framed_message cdc (dumps cdc initialized_notification) ?c2 = (ok, c3)"
    by force
  with fails have nok: "\<not> ok" by simp
  from py_getitem_Ret [OF gi] have hr: "py_in ''result'' response = Ret True"
    and tr: "truthy response" by simp_all
  from send_request_keeps [OF sr] ni have "\<not> initialized c1" by simp
  with send_framed_message_keeps [OF sf]
  have k: "session_state c3 = INITIALIZED" "\<not> initialized c3" by simp_all
  from run ni sr ne gi sf nok hr tr have "out = Ret False \<and> c' = c3"
    by (simp add: initialize_def)
  with k show ?thesis by simp
qed

text \<open>
  C4. \<^verbatim>\<open>initialize\<close> and ACTIVE. If a call of \<^verbatim>\<open>initialize\<close> takes the session
  state from something else to ACTIVE, then the \<^verbatim>\<open>initialize\<close> request was answered by
  a response without \<^verbatim>\<open>error\<close> and with a \<^verbatim>\<open>result\<close>, the
  \<^verbatim>\<open>notifications/initialized\<close> frame was sent successfully (it is the last frame
  handed to the socket), and only then were \<^verbatim>\<open>initialized\<close> and ACTIVE set; the call
  returns \<^verbatim>\<open>True\<close>. If the response is good and sending the notification fails, the
  call returns \<^verbatim>\<open>False\<close> and the state reports INITIALIZED, not ACTIVE.
\<close>

theorem C4_active_only_after_notification:
  assumes run: "initialize cdc c = (out, c')"
  shows "(session_state c \<noteq> ACTIVE \<and> session_state c' = ACTIVE \<longrightarrow>
            out = Ret True \<and> initialized c'
            \<and> (\<exists>response c1 result c3 s3 len4.
                  send_request cdc ''initialize'' (Some init_params) c = (Ret response, c1)
                \<and> py_in ''error'' response = Ret False
                \<and> py_getitem response ''result'' = Ret result
                \<and> send_framed_message cdc (dumps cdc initialized_notification)
                      (c1\<lparr>server_info := result, session_state := INITIALIZED\<rparr>) = (True, c3)
                \<and> c' = c3\<lparr>initialized := True, session_state := ACTIVE\<rparr>
                \<and> sock c' = Some s3 \<and> sent s3 \<noteq> []
                \<and> last (sent s3) = len4 @ encode cdc (dumps cdc initialized_notification)))
       \<and> (\<forall>response c1 result.
             \<not> initialized c
             \<and> send_request cdc ''initialize'' (Some init_params) c = (Ret response, c1)
             \<and> py_in ''error'' response = Ret False
             \<and> py_getitem response ''result'' = Ret result
             \<and> fst (send_framed_message cdc (dumps cdc initialized_notification)
                      (c1\<lparr>server_info := result, session_state := INITIALIZED\<rparr>)) = False
             \<longrightarrow> out = Ret False \<and> session_state c' = INITIALIZED \<and> \<not> initialized c')"
proof -
  have first: "out = Ret True \<and> initialized c'
            \<and> (\<exists>response c1 result c3 s3 len4.
                  send_request cdc ''initialize'' (Some init_params) c = (Ret response, c1)
                \<and> py_in ''error'' response = Ret False
                \<and> py_getitem response ''result'' = Ret result
                \<and> send_framed_message cdc (dumps cdc initialized_notification)
                      (c1\<lparr>server_info := result, session_state := INITIALIZED\<rparr>) = (True, c3)
                \<and> c' = c3\<lparr>initialized := True, session_state := ACTIVE\<rparr>
                \<and> sock c' = Some s3 \<and> sent s3 \<noteq> []
                \<and> last (sent s3) = len4 @ encode cdc (dumps cdc initialized_notification))"
    if A: "session_state c \<noteq> ACTIVE \<and> session_state c' = ACTIVE"
  proof -
    from A run have ni: "\<not> initialized c" by (auto simp: initialize_def)
    obtain o1 c1 where sr: "send_request cdc ''initialize'' (Some init_params) c = (o1, c1)"
      by force
    from send_request_keeps [OF sr] A have st1: "session_state c1 \<noteq> ACTIVE" by simp
    from run ni sr A st1 obtain response where o1: "o1 = Ret response"
      by (cases o1) (auto simp: initialize_def)
    from run ni sr o1 A st1 have ne: "py_in ''error'' response = Ret False"
      and tr: "truthy response"
      by (auto simp: initialize_def split: if_splits res.splits)
    from run ni sr o1 A st1 ne tr
    obtain result where gi: "py_getitem response ''result'' = Ret result"
      by (cases "py_getitem response ''result''")
         (auto simp: initialize_def split: if_splits res.splits)
    let ?c2 = "c1\<lparr>server_info := result, session_state := INITIALIZED\<rparr>"
    obtain ok c3
      where sf: "send_framed_message cdc (dumps cdc initialized_notification) ?c2 = (ok, c3)"
      by force
    from send_framed_message_keeps [OF sf] have st3: "session_state c3 = INITIALIZED" by simp
    from py_getitem_Ret [OF gi] have hr: "py_in ''result'' response = Ret True" by simp
    from run ni sr o1 ne tr gi hr sf have c'_cases:
      "(ok \<and> out = Ret True \<and> c' = c3\<lparr>initialized := True, session_state := ACTIVE\<rparr>)
       \<or> (\<not> ok \<and> c' = c3)"
      by (cases ok) (simp_all add: initialize_def)
    with A st3 have ok: ok and out: "out = Ret True"
      and c': "c' = c3\<lparr>initialized := True, session_state := ACTIVE\<rparr>" by auto
    from ok sf
    have sf': "send_framed_message cdc (dumps cdc initialized_notification) ?c2 = (True, c3)"
      by simp
    from send_framed_message_sent [OF sf']
    obtain s :: socket and s3 len4 where "sock c3 = Some s3"
      "sent s3 = sent s @ [len4 @ encode cdc (dumps cdc initialized_notification)]" by auto
    with c' have "sock c' = Some s3 \<and> sent s3 \<noteq> []
        \<and> last (sent s3) = len4 @ encode cdc (dumps cdc initialized_notification)" by simp
    with out c' sr o1 ne gi sf'
    show ?thesis
      by (intro conjI exI [of _ response] exI [of _ c1] exI [of _ result] exI [of _ c3]
            exI [of _ s3] exI [of _ len4]) simp_all
  qed
  have second: "out = Ret False \<and> session_state c' = INITIALIZED \<and> \<not> initialized c'"
    if B: "\<not> initialized c
             \<and> send_request cdc ''initialize'' (Some init_params) c = (Ret response, c1)
             \<and> py_in ''error'' response = Ret False
             \<and> py_getitem response ''result'' = Ret result
             \<and> fst (send_framed_message cdc (dumps cdc initialized_notification)
                      (c1\<lparr>server_info := result, session_state := INITIALIZED\<rparr>)) = False"
    for response c1 result
    using initialize_notification_fails [OF run, of response c1 result] B by blast
  from first second show ?thesis by blast
qed

lemmas init_eval =
  session_defs example_defs framing_defs test_loads_def init_ok_text_def init_ok_json_def show_defs

text \<open>
  A frame that holds a JSON number reaches the \<^verbatim>\<open>in\<close> test of \<^verbatim>\<open>send_request\<close>,
  whose TypeError no handler catches: it leaves \<^verbatim>\<open>send_request\<close> and
  \<^verbatim>\<open>initialize\<close>.
\<close>

lemma initialize_scalar_reply_raises:
  "fst (initialize test_codec scalar_reply_client) = Raise TypeError"
  by (simp add: scalar_reply_client_def init_eval init_error_text_def tool_error_text_def
      mcp_tool_error_text_def tool_result_text_def mcp_tool_result_text_def progress_text_def)

theorem C4_active_only_after_notification_witness:
  "session_state init_ok_client \<noteq> ACTIVE
   \<and> session_state (snd (initialize test_codec init_ok_client)) = ACTIVE
   \<and> fst (initialize test_codec init_ok_client) = Ret True
   \<and> initialized (snd (initialize test_codec init_ok_client))
   \<and> (\<exists>s3 len4. sock (snd (initialize test_codec init_ok_client)) = Some s3 \<and> sent s3 \<noteq> []
         \<and> last (sent s3) = len4 @ encode test_codec (dumps test_codec initialized_notification))
   \<and> \<not> initialized init_send_fails_client
   \<and> fst (send_request test_codec ''initialize'' (Some init_params) init_send_fails_client)
       = Ret init_ok_json
   \<and> fst (initialize test_codec init_send_fails_client) = Ret False
   \<and> session_state (snd (initialize test_codec init_send_fails_client)) = INITIALIZED
   \<and> \<not> initialized (snd (initialize test_codec init_send_fails_client))"
proof -
  let ?ok = "initialize test_codec init_ok_client"
  have before: "session_state init_ok_client \<noteq> ACTIVE"
    by (simp add: init_ok_client_def connected_def fresh_client_def)
  have after: "session_state (snd ?ok) = ACTIVE"
    by (simp add: init_ok_client_def init_eval)
  have run: "?ok = (fst ?ok, snd ?ok)" by simp
  from C4_active_only_after_notification [OF run] before after
  have a: "fst ?ok = Ret True \<and> initialized (snd ?ok)
      \<and> (\<exists>s3 len4. sock (snd ?ok) = Some s3 \<and> sent s3 \<noteq> []
         \<and> last (sent s3) = len4 @ encode test_codec (dumps test_codec initialized_notification))"
    by blast
  let ?c = init_send_fails_client
  let ?bad = "initialize test_codec ?c"
  let ?sr = "send_request test_codec ''initialize'' (Some init_params) ?c"
  let ?result = "JObj [(''serverInfo'', JObj [(''name'', JStr ''esp'')])]"
  have ni: "\<not> initialized ?c"
    by (simp add: init_send_fails_client_def fresh_client_def)
  have resp: "fst ?sr = Ret init_ok_json"
    by (simp add: init_send_fails_client_def init_eval)
  then have sr: "?sr = (Ret init_ok_json, snd ?sr)"
    by (simp add: prod_eq_iff)
  have ne: "py_in ''error'' init_ok_json = Ret False"
    and gi: "py_getitem init_ok_json ''result'' = Ret ?result"
    by (simp_all add: init_ok_json_def)
  have fails: "fst (send_framed_message test_codec (dumps test_codec initialized_notification)
      ((snd ?sr)\<lparr>server_info := ?result, session_state := INITIALIZED\<rparr>)) = False"
    by (simp add: init_send_fails_client_def init_eval)
  have run': "?bad = (fst ?bad, snd ?bad)" by simp
  from C4_active_only_after_notification [OF run'] ni sr ne gi fails
  have b: "fst ?bad = Ret False \<and> session_state (snd ?bad) = INITIALIZED
      \<and> \<not> initialized (snd ?bad)"
    by blast
  from before after a ni resp b show ?thesis by simp
qed

text \<open>
  C5. Failure of \<^verbatim>\<open>initialize\<close>, as the code has it. When \<^verbatim>\<open>send_request\<close>
  comes back with nothing, or with a response that holds \<^verbatim>\<open>error\<close>, the call
  returns \<^verbatim>\<open>False\<close> without raising and leaves the session state as it was before
  the call; when the response is good and the \<^verbatim>\<open>initialized\<close> notification cannot be
  sent, it returns \<^verbatim>\<open>False\<close> without raising and the state is INITIALIZED. No
  path assigns ERROR\_STATE.
\<close>

theorem C5_initialize_failure_keeps_state:
  assumes ni: "\<not> initialized c"
    and sr: "send_request cdc ''initialize'' (Some init_params) c = (Ret response, c1)"
    and run: "initialize cdc c = (out, c')"
  shows "(\<not> truthy response \<or> py_in ''error'' response = Ret True \<longrightarrow>
            out = Ret False \<and> session_state c' = session_state c)
       \<and> (py_in ''error'' response = Ret False
            \<and> py_getitem response ''result'' = Ret result
            \<and> fst (send_framed_message cdc (dumps cdc initialized_notification)
                      (c1\<lparr>server_info := result, session_state := INITIALIZED\<rparr>)) = False
            \<longrightarrow> out = Ret False \<and> session_state c' = INITIALIZED)"
proof -
  from send_request_keeps [OF sr] have st1: "session_state c1 = session_state c" by simp
  have early: "out = Ret False \<and> session_state c' = session_state c"
    if "\<not> truthy response \<or> py_in ''error'' response = Ret True"
    using that run ni sr st1 by (auto simp: initialize_def split: if_splits)
  have late: "out = Ret False \<and> session_state c' = INITIALIZED"
    if "py_in ''error'' response = Ret False
            \<and> py_getitem response ''result'' = Ret result
            \<and> fst (send_framed_message cdc (dumps cdc initialized_notification)
                      (c1\<lparr>server_info := result, session_state := INITIALIZED\<rparr>)) = False"
    using initialize_notification_fails [OF run ni sr, of result] that by blast
  from early late show ?thesis by blast
qed

lemmas init_error_eval =
  session_defs example_defs framing_defs test_loads_def init_ok_text_def init_error_text_def
  init_error_json_def show_defs

theorem C5_initialize_failure_keeps_state_witness:
  "fst (initialize test_codec silent_client) = Ret False
   \<and> session_state (snd (initialize test_codec silent_client)) = session_state silent_client
   \<and> fst (initialize test_codec init_error_client) = Ret False
   \<and> session_state (snd (initialize test_codec init_error_client))
       = session_state init_error_client
   \<and> fst (initialize test_codec init_send_fails_client) = Ret False
   \<and> session_state (snd (initialize test_codec init_send_fails_client)) = INITIALIZED"
proof -
  let ?result = "JObj [(''serverInfo'', JObj [(''name'', JStr ''esp'')])]"
  have silent: "send_request test_codec ''initialize'' (Some init_params) silent_client
      = (Ret JNull, snd (send_request test_codec ''initialize'' (Some init_params) silent_client))"
    by (simp add: prod_eq_iff silent_client_def init_eval)
  have err: "send_request test_codec ''initialize'' (Some init_params) init_error_client
      = (Ret init_error_json,
         snd (send_request test_codec ''initialize'' (Some init_params) init_error_client))"
    by (simp add: prod_eq_iff init_error_client_def init_error_eval)
  have bad: "send_request test_codec ''initialize'' (Some init_params) init_send_fails_client
      = (Ret init_ok_json,
         snd (send_request test_codec ''initialize'' (Some init_params) init_send_fails_client))"
    by (simp add: prod_eq_iff init_send_fails_client_def init_eval)
  have fails: "fst (send_framed_message test_codec (dumps test_codec initialized_notification)
      ((snd (send_request test_codec ''initialize'' (Some init_params) init_send_fails_client))
         \<lparr>server_info := ?result, session_state := INITIALIZED\<rparr>)) = False"
    by (simp add: init_send_fails_client_def init_eval)
  have ni: "\<not> initialized silent_client" "\<not> initialized init_error_client"
    "\<not> initialized init_send_fails_client"
    by (simp_all add: silent_client_def init_error_client_def init_send_fails_client_def
        connected_def fresh_client_def)
  have facts: "\<not> truthy JNull" "py_in ''error'' init_error_json = Ret True"
    "py_in ''error'' init_ok_json = Ret False" "py_getitem init_ok_json ''result'' = Ret ?result"
    by (simp_all add: init_error_json_def init_ok_json_def)
  from C5_initialize_failure_keeps_state [OF ni(1) silent prod.collapse [symmetric]] facts(1)
  have a: "fst (initialize test_codec silent_client) = Ret False
   \<and> session_state (snd (initialize test_codec silent_client)) = session_state silent_client"
    by blast
  from C5_initialize_failure_keeps_state [OF ni(2) err prod.collapse [symmetric]] facts(2)
  have b: "fst (initialize test_codec init_error_client) = Ret False
   \<and> session_state (snd (initialize test_codec init_error_client))
       = session_state init_error_client"
    by blast
  from C5_initialize_failure_keeps_state [OF ni(3) bad prod.collapse [symmetric],
      where result = ?result] facts(3,4) fails
  have c: "fst (initialize test_codec init_send_fails_client) = Ret False
   \<and> session_state (snd (initialize test_codec init_send_fails_client)) = INITIALIZED"
    by blast
  from a b c show ?thesis by simp
qed

theorem C5_error_state_counterexample:
  "fst (initialize test_codec silent_client) = Ret False
   \<and> session_state (snd (initialize test_codec silent_client)) = UNINITIALIZED
   \<and> session_state (snd (initialize test_codec silent_client)) \<noteq> ERROR_STATE"
  by (simp add: silent_client_def init_eval)

lemma validate_response_wellformed:
  assumes "map_of kvs ''jsonrpc'' = Some (JStr ''2.0'')" and "map_of kvs ''id'' = Some (JInt rid)"
  shows "validate_response (JObj kvs) rid = Ret (JObj kvs)"
  using assms by (simp add: validate_response_def py_eq_str_def)

text \<open>
  C6. A well-formed error response to \<^verbatim>\<open>tools/call\<close>, as the code has it. Neither
  \<^verbatim>\<open>call_tool\<close> raises on it. \<^verbatim>\<open>SessionMCPClient.call_tool\<close> returns the
  response message itself, whose \<^verbatim>\<open>error\<close> member is the error object unchanged,
  whereas it returns \<^verbatim>\<open>None\<close> when the request cannot be sent or no frame comes
  back. \<^verbatim>\<open>MCPClient.call_tool\<close> returns \<^verbatim>\<open>False\<close> on the error response, the
  value it also returns when \<^verbatim>\<open>send_request\<close> yields nothing.
\<close>

theorem C6_error_response_surfaced:
  "(initialized c
     \<and> send_framed_message cdc
           (dumps cdc (make_request ''tools/call'' (Some (tool_params name arguments))
                         (request_id c + 1)))
           (c\<lparr>request_id := request_id c + 1\<rparr>) = (True, c2)
     \<and> receive_framed_message cdc c2 = (Some reply, c3) \<and> reply \<noteq> []
     \<and> loads cdc reply = Some (JObj kvs)
     \<and> map_of kvs ''jsonrpc'' = Some (JStr ''2.0'')
     \<and> map_of kvs ''id'' = Some (JInt (request_id c + 1))
     \<and> map_of kvs ''error'' = Some err \<and> map_of kvs ''result'' = None
     \<longrightarrow> call_tool cdc name arguments c = (Ret (JObj kvs), c3)
         \<and> py_getitem (JObj kvs) ''error'' = Ret err \<and> JObj kvs \<noteq> JNull)
   \<and> (initialized c
       \<and> send_framed_message cdc
           (dumps cdc (make_request ''tools/call'' (Some (tool_params name arguments))
                         (request_id c + 1)))
           (c\<lparr>request_id := request_id c + 1\<rparr>) = (sent_ok, c2)
       \<and> (sent_ok = False \<or> fst (receive_framed_message cdc c2) = None)
       \<longrightarrow> fst (call_tool cdc name arguments c) = Ret JNull)
   \<and> (mcp_initialized m
       \<and> mcp_send_request cdc ''tools/call''
             (Some (JObj [(''name'', JStr tool_name), (''arguments'', args)])) m
           = (JObj mkvs, m1)
       \<and> map_of mkvs ''error'' = Some (JObj ekvs)
       \<and> map_of ekvs ''code'' = Some code \<and> map_of ekvs ''message'' = Some msg
       \<longrightarrow> mcp_call_tool cdc tool_name args m = (Ret False, m1))
   \<and> (mcp_initialized m
       \<and> mcp_send_request cdc ''tools/call''
             (Some (JObj [(''name'', JStr tool_name), (''arguments'', args)])) m
           = (JNull, m1)
       \<longrightarrow> mcp_call_tool cdc tool_name args m = (Ret False, m1))"
proof -
  have session: "call_tool cdc name arguments c = (Ret (JObj kvs), c3)
         \<and> py_getitem (JObj kvs) ''error'' = Ret err \<and> JObj kvs \<noteq> JNull"
    if A: "initialized c
     \<and> send_framed_message cdc
           (dumps cdc (make_request ''tools/call'' (Some (tool_params name arguments))
                         (request_id c + 1)))
           (c\<lparr>request_id := request_id c + 1\<rparr>) = (True, c2)
     \<and> receive_framed_message cdc c2 = (Some reply, c3) \<and> reply \<noteq> []
     \<and> loads cdc reply = Some (JObj kvs)
     \<and> map_of kvs ''jsonrpc'' = Some (JStr ''2.0'')
     \<and> map_of kvs ''id'' = Some (JInt (request_id c + 1))
     \<and> map_of kvs ''error'' = Some err \<and> map_of kvs ''result'' = None"
  proof -
    from A have v: "validate_response (JObj kvs) (request_id c + 1) = Ret (JObj kvs)"
      by (intro validate_response_wellformed) simp_all
    from A v have sr: "send_request cdc ''tools/call'' (Some (tool_params name arguments)) c
        = (Ret (JObj kvs), c3)"
      by (simp add: send_request_def get_next_id_def)
    from A have ne: "kvs \<noteq> []" by auto
    from A sr ne show ?thesis
      by (simp add: call_tool_def)
  qed
  have fault: "fst (call_tool cdc name arguments c) = Ret JNull"
    if F: "initialized c
       \<and> send_framed_message cdc
           (dumps cdc (make_request ''tools/call'' (Some (tool_params name arguments))
                         (request_id c + 1)))
           (c\<lparr>request_id := request_id c + 1\<rparr>) = (sent_ok, c2)
       \<and> (sent_ok = False \<or> fst (receive_framed_message cdc c2) = None)"
  proof -
    from F have "fst (send_request cdc ''tools/call'' (Some (tool_params name arguments)) c)
        = Ret JNull"
      by (cases sent_ok; cases "receive_framed_message cdc c2")
         (auto simp: send_request_def get_next_id_def)
    with F show ?thesis
      by (cases "send_request cdc ''tools/call'' (Some (tool_params name arguments)) c")
         (simp add: call_tool_def)
  qed
  have mcp: "mcp_call_tool cdc tool_name args m = (Ret False, m1)"
    if B: "mcp_initialized m
       \<and> mcp_send_request cdc ''tools/call''
             (Some (JObj [(''name'', JStr tool_name), (''arguments'', args)])) m
           = (JObj mkvs, m1)
       \<and> map_of mkvs ''error'' = Some (JObj ekvs)
       \<and> map_of ekvs ''code'' = Some code \<and> map_of ekvs ''message'' = Some msg"
  proof -
    from B have "mkvs \<noteq> []" by auto
    with B show ?thesis by (simp add: mcp_call_tool_def)
  qed
  have mcp_fault: "mcp_call_tool cdc tool_name args m = (Ret False, m1)"
    if "mcp_initialized m
       \<and> mcp_send_request cdc ''tools/call''
             (Some (JObj [(''name'', JStr tool_name), (''arguments'', args)])) m
           = (JNull, m1)"
    using that by (simp add: mcp_call_tool_def)
  from session fault mcp mcp_fault show ?thesis by blast
qed

lemmas mcp_defs =
  mcp_call_tool_def mcp_send_request_def mcp_make_request_def sock_send_def sock_sendall_def
  recv_line_loop.simps sock_recv_def newline_def line_of_def mcp_ready_def

lemmas tool_eval =
  session_defs ready_def example_defs framing_defs test_loads_def init_ok_text_def
  init_error_text_def tool_error_text_def tool_error_json_def tool_error_object_def show_defs

lemmas mcp_tool_eval =
  mcp_defs example_defs test_loads_def init_ok_text_def init_error_text_def tool_error_text_def
  mcp_tool_error_text_def mcp_tool_error_json_def tool_error_object_def show_defs

theorem C6_error_response_surfaced_witness:
  "call_tool test_codec ''nonexistent_tool'' None tool_error_client
     = (Ret tool_error_json, snd (call_tool test_codec ''nonexistent_tool'' None tool_error_client))
   \<and> py_getitem tool_error_json ''error''
       = Ret (JObj [(''code'', JInt (- 32601)), (''message'', JStr ''Tool not found'')])
   \<and> fst (call_tool test_codec ''nonexistent_tool'' None tool_silent_client) = Ret JNull
   \<and> fst (mcp_call_tool test_codec ''nonexistent_tool'' (JObj []) mcp_tool_error_client)
       = Ret False
   \<and> fst (mcp_call_tool test_codec ''nonexistent_tool'' (JObj []) mcp_closed_client) = Ret False"
proof -
  let ?req = "dumps test_codec
      (make_request ''tools/call'' (Some (tool_params ''nonexistent_tool'' None)) 2)"
  let ?kvs = "[(''jsonrpc'', JStr ''2.0''), (''id'', JInt 2), (''error'', tool_error_object)]"
  let ?c2 = "snd (send_framed_message test_codec ?req (tool_error_client\<lparr>request_id := 2\<rparr>))"
  let ?c3 = "snd (receive_framed_message test_codec ?c2)"
  have rid: "request_id tool_error_client + 1 = 2" "request_id tool_silent_client + 1 = 2"
    by (simp_all add: tool_error_client_def tool_silent_client_def ready_def)
  have h1: "initialized tool_error_client" "initialized tool_silent_client"
    by (simp_all add: tool_error_client_def tool_silent_client_def ready_def)
  have h2: "send_framed_message test_codec ?req (tool_error_client\<lparr>request_id := 2\<rparr>)
      = (True, ?c2)"
    by (simp add: prod_eq_iff tool_error_client_def tool_eval)
  have h3: "receive_framed_message test_codec ?c2 = (Some tool_error_text, ?c3)"
    by (simp add: prod_eq_iff tool_error_client_def tool_eval)
  have h4: "tool_error_text \<noteq> []" "loads test_codec tool_error_text = Some (JObj ?kvs)"
    by (simp_all add: tool_eval)
  have h5: "map_of ?kvs ''jsonrpc'' = Some (JStr ''2.0'')" "map_of ?kvs ''id'' = Some (JInt 2)"
    "map_of ?kvs ''error'' = Some tool_error_object" "map_of ?kvs ''result'' = None"
    by simp_all
  note inst = C6_error_response_surfaced [where cdc = test_codec and name = "''nonexistent_tool''"
      and arguments = None and tool_name = "''nonexistent_tool''" and args = "JObj []"]
  from inst [where c = tool_error_client and ?c2.0 = ?c2 and ?c3.0 = ?c3
      and reply = tool_error_text and kvs = ?kvs and err = tool_error_object]
    rid h1 h2 h3 h4 h5
  have a: "call_tool test_codec ''nonexistent_tool'' None tool_error_client = (Ret (JObj ?kvs), ?c3)
      \<and> py_getitem (JObj ?kvs) ''error'' = Ret tool_error_object"
    by simp
  let ?s2 = "snd (send_framed_message test_codec ?req (tool_silent_client\<lparr>request_id := 2\<rparr>))"
  have g2: "send_framed_message test_codec ?req (tool_silent_client\<lparr>request_id := 2\<rparr>)
      = (True, ?s2)"
    by (simp add: prod_eq_iff tool_silent_client_def tool_eval)
  have g3: "fst (receive_framed_message test_codec ?s2) = None"
    by (simp add: tool_silent_client_def tool_eval)
  from inst [where c = tool_silent_client and ?c2.0 = ?s2 and sent_ok = True] rid h1 g2 g3
  have b: "fst (call_tool test_codec ''nonexistent_tool'' None tool_silent_client) = Ret JNull"
    by simp
  let ?sr = "\<lambda>m. mcp_send_request test_codec ''tools/call''
      (Some (JObj [(''name'', JStr ''nonexistent_tool''), (''arguments'', JObj [])])) m"
  let ?mkvs = "[(''jsonrpc'', JStr ''2.0''), (''id'', JStr ''2''), (''error'', tool_error_object)]"
  let ?ekvs = "[(''code'', JInt (- 32601)), (''message'', JStr ''Tool not found'')]"
  have m1: "mcp_initialized mcp_tool_error_client" "mcp_initialized mcp_closed_client"
    by (simp_all add: mcp_tool_error_client_def mcp_closed_client_def mcp_ready_def)
  have m2: "?sr mcp_tool_error_client = (JObj ?mkvs, snd (?sr mcp_tool_error_client))"
    by (simp add: prod_eq_iff mcp_tool_error_client_def mcp_tool_eval)
  have m3: "map_of ?mkvs ''error'' = Some (JObj ?ekvs)" "map_of ?ekvs ''code'' = Some (JInt (- 32601))"
    "map_of ?ekvs ''message'' = Some (JStr ''Tool not found'')"
    by (simp_all add: tool_error_object_def)
  from inst [where m = mcp_tool_error_client and mkvs = ?mkvs and ekvs = ?ekvs
      and ?m1.0 = "snd (?sr mcp_tool_error_client)" and code = "JInt (- 32601)"
      and msg = "JStr ''Tool not found''"] m1 m2 m3
  have c: "fst (mcp_call_tool test_codec ''nonexistent_tool'' (JObj []) mcp_tool_error_client)
       = Ret False"
    by simp
  have m4: "?sr mcp_closed_client = (JNull, snd (?sr mcp_closed_client))"
    by (simp add: prod_eq_iff mcp_closed_client_def mcp_tool_eval)
  from inst [where m = mcp_closed_client and ?m1.0 = "snd (?sr mcp_closed_client)"] m1 m4
  have d: "fst (mcp_call_tool test_codec ''nonexistent_tool'' (JObj []) mcp_closed_client)
       = Ret False"
    by simp
  from a b c d show ?thesis
    by (simp add: tool_error_json_def tool_error_object_def)
qed

theorem C6_mcp_error_like_fault_counterexample:
  "fst (mcp_call_tool test_codec ''nonexistent_tool'' (JObj []) mcp_tool_error_client) = Ret False
   \<and> fst (mcp_call_tool test_codec ''nonexistent_tool'' (JObj []) mcp_closed_client) = Ret False"
  by (simp add: mcp_tool_error_client_def mcp_closed_client_def mcp_tool_eval)

lemma disconnect_keeps_session_state: "session_state (snd (disconnect c)) = session_state c"
  by (cases "sock c") (auto simp: disconnect_def split: prod.splits)

text \<open>
  What \<^verbatim>\<open>disconnect\<close> does do, for both clients: the call never raises, a second
  call right after the first does not raise either and changes nothing, and after the
  call the client has no socket. \<^verbatim>\<open>SessionMCPClient.disconnect\<close> clears
  \<^verbatim>\<open>initialized\<close> when a socket was attached; \<^verbatim>\<open>MCPClient.disconnect\<close> leaves
  its \<^verbatim>\<open>initialized\<close> flag alone.
\<close>

lemma disconnect_idempotent:
  "fst (disconnect c) = Ret ()
   \<and> fst (disconnect (snd (disconnect c))) = Ret ()
   \<and> snd (disconnect (snd (disconnect c))) = snd (disconnect c)
   \<and> sock (snd (disconnect c)) = None
   \<and> initialized (snd (disconnect c)) = (sock c = None \<and> initialized c)
   \<and> fst (mcp_disconnect m) = Ret ()
   \<and> fst (mcp_disconnect (snd (mcp_disconnect m))) = Ret ()
   \<and> snd (mcp_disconnect (snd (mcp_disconnect m))) = snd (mcp_disconnect m)
   \<and> mcp_sock (snd (mcp_disconnect m)) = None
   \<and> mcp_initialized (snd (mcp_disconnect m)) = mcp_initialized m"
proof -
  have s: "fst (disconnect c) = Ret () \<and> sock (snd (disconnect c)) = None
      \<and> initialized (snd (disconnect c)) = (sock c = None \<and> initialized c)" for c
    by (cases "sock c") (auto simp: disconnect_def split: prod.splits)
  have s2: "disconnect c' = (Ret (), c')" if "sock c' = None" for c'
    using that by (simp add: disconnect_def)
  have m: "fst (mcp_disconnect m) = Ret () \<and> mcp_sock (snd (mcp_disconnect m)) = None
      \<and> mcp_initialized (snd (mcp_disconnect m)) = mcp_initialized m" for m
    by (cases "mcp_sock m") (auto simp: mcp_disconnect_def split: prod.splits)
  have m2: "mcp_disconnect m' = (Ret (), m')" if "mcp_sock m' = None" for m'
    using that by (simp add: mcp_disconnect_def)
  from s [of c] s2 [of "snd (disconnect c)"] m [of m] m2 [of "snd (mcp_disconnect m)"]
  show ?thesis by simp
qed

text \<open>
  C7. The session state after \<^verbatim>\<open>disconnect\<close>. \<^verbatim>\<open>initialize\<close> sets
  \<^verbatim>\<open>initialized\<close> and \<^verbatim>\<open>session_state\<close> together, and \<^verbatim>\<open>disconnect\<close> resets the
  first and forgets the second. A client that connects, completes the handshake and
  disconnects has neither a socket nor the \<^verbatim>\<open>initialized\<close> flag, yet its session state
  still reads \<^verbatim>\<open>ACTIVE\<close>, not \<^verbatim>\<open>UNINITIALIZED\<close>; a second \<^verbatim>\<open>disconnect\<close> does not
  raise and leaves it so.
\<close>

theorem C7_disconnect_leaves_state_active:
  "fst (initialize test_codec init_ok_client) = Ret True
   \<and> initialized (snd (initialize test_codec init_ok_client))
   \<and> session_state (snd (initialize test_codec init_ok_client)) = ACTIVE
   \<and> fst (disconnect (snd (initialize test_codec init_ok_client))) = Ret ()
   \<and> sock (snd (disconnect (snd (initialize test_codec init_ok_client)))) = None
   \<and> \<not> initialized (snd (disconnect (snd (initialize test_codec init_ok_client))))
   \<and> session_state (snd (disconnect (snd (initialize test_codec init_ok_client)))) = ACTIVE
   \<and> session_state (snd (disconnect (snd (initialize test_codec init_ok_client))))
       \<noteq> UNINITIALIZED
   \<and> fst (disconnect (snd (disconnect (snd (initialize test_codec init_ok_client))))) = Ret ()
   \<and> session_state
        (snd (disconnect (snd (disconnect (snd (initialize test_codec init_ok_client))))))
       = ACTIVE"
  by (simp add: init_ok_client_def init_eval disconnect_def sock_close_def)

lemmas notified_eval =
  session_defs ready_def example_defs framing_defs test_loads_def init_ok_text_def
  init_error_text_def tool_error_text_def mcp_tool_error_text_def tool_result_text_def
  mcp_tool_result_text_def progress_text_def progress_json_def show_defs

lemmas mcp_notified_eval =
  mcp_defs example_defs test_loads_def init_ok_text_def init_error_text_def tool_error_text_def
  mcp_tool_error_text_def tool_result_text_def mcp_tool_result_text_def progress_text_def
  progress_json_def mcp_tool_result_json_def show_defs

text \<open>
  C1. A notification ahead of the response. The claim asks \<^verbatim>\<open>send_request\<close> to skip
  frames without \<^verbatim>\<open>id\<close> and to go on reading until the response with the request's
  id arrives. Both clients read one message and stop. With a progress notification on the
  wire ahead of the response to request 2, \<^verbatim>\<open>SessionMCPClient.send_request\<close> returns
  the notification (a message without \<^verbatim>\<open>id\<close> passes its check), the response frame
  stays unread on the wire, and \<^verbatim>\<open>call_tool\<close> hands the notification to its caller;
  \<^verbatim>\<open>MCPClient.send_request\<close> returns the notification as well.
\<close>

theorem C1_notification_returned_as_response:
  "fst (send_request test_codec ''tools/call'' (Some (tool_params ''scan'' None)) notified_client)
     = Ret progress_json
   \<and> map_of [(''jsonrpc'', JStr ''2.0''), (''method'', JStr ''notifications/progress'')] ''id''
       = None
   \<and> sock (snd (send_request test_codec ''tools/call'' (Some (tool_params ''scan'' None))
                  notified_client))
       = Some (idle_socket\<lparr>incoming := [Data (frame_of tool_result_text)],
            recv_log := [4, 54],
            sent := [frame_of (show_json (make_request ''tools/call''
                       (Some (tool_params ''scan'' None)) 2))]\<rparr>)
   \<and> fst (call_tool test_codec ''scan'' None notified_client) = Ret progress_json
   \<and> fst (mcp_send_request test_codec ''tools/call''
             (Some (JObj [(''name'', JStr ''scan''), (''arguments'', JObj [])]))
             mcp_notified_client)
       = progress_json"
  by (simp add: notified_client_def mcp_notified_client_def notified_eval mcp_defs)


lemma takeWhile_upto:
  assumes "x \<notin> set xs"
  shows "takeWhile (\<lambda>y. y \<noteq> x) (xs @ x # ys) = xs"
  using assms by (induction xs) auto

lemma sock_recv_whole:
  assumes "incoming s = Data bs # rest" and "length bs \<le> n"
  shows "sock_recv n s = (RBytes bs, s\<lparr>recv_log := recv_log s @ [n], incoming := rest\<rparr>)"
  using assms by (simp add: sock_recv_def Let_def)

lemma recv_line_loop_pieces:
  assumes "incoming s = map Data (map fst pieces) @ Data bs # rest"
    and "\<forall>p\<in>set pieces. fst p \<noteq> [] \<and> length (fst p) \<le> 4096
           \<and> decode cdc (fst p) = Some (snd p) \<and> snd p \<noteq> [] \<and> newline \<notin> set (snd p)"
    and "newline \<notin> set acc"
    and "bs \<noteq> []" and "length bs \<le> 4096"
    and "decode cdc bs = Some (pre @ newline # post)" and "newline \<notin> set pre"
  shows "recv_line_loop cdc acc s =
    (Some (acc @ concat (map snd pieces) @ pre),
     s\<lparr>incoming := rest, recv_log := recv_log s @ replicate (Suc (length pieces)) 4096\<rparr>)"
  using assms
proof (induction pieces arbitrary: acc s)
  case Nil
  then have inc: "incoming s = Data bs # rest" by simp
  have tw: "takeWhile (\<lambda>ch. ch \<noteq> newline) (acc @ pre @ newline # post) = acc @ pre"
    using takeWhile_upto [of newline "acc @ pre" post] Nil.prems(3,7) by simp
  show ?case
    using sock_recv_whole [OF inc Nil.prems(5)] Nil.prems(4,6) tw
    by (subst recv_line_loop.simps) simp
next
  case (Cons p pieces)
  obtain b t where p: "p = (b, t)" by (cases p)
  from Cons.prems(1) p have inc: "incoming s = Data b # (map Data (map fst pieces) @ Data bs # rest)"
    by simp
  from Cons.prems(2) p have b: "b \<noteq> []" "length b \<le> 4096" "decode cdc b = Some t" "t \<noteq> []"
    "newline \<notin> set t" by simp_all
  let ?s1 = "s\<lparr>recv_log := recv_log s @ [4096],
               incoming := map Data (map fst pieces) @ Data bs # rest\<rparr>"
  have step: "recv_line_loop cdc acc s = recv_line_loop cdc (acc @ t) ?s1"
    using sock_recv_whole [OF inc b(2)] b Cons.prems(3)
    by (subst recv_line_loop.simps) simp
  have "recv_line_loop cdc (acc @ t) ?s1 =
    (Some ((acc @ t) @ concat (map snd pieces) @ pre),
     ?s1\<lparr>incoming := rest, recv_log := recv_log ?s1 @ replicate (Suc (length pieces)) 4096\<rparr>)"
    using Cons.prems b by (intro Cons.IH) simp_all
  with step p show ?case by simp
qed

text \<open>
  C9. The newline client keeps nothing behind the first newline. When the first newline of
  the accumulated text arrives in a segment that decodes to \<open>pre\<close>, the newline and
  \<open>post\<close>, \<^verbatim>\<open>MCPClient.send_request\<close> returns what the text before that newline
  parses to, and the client it leaves behind is the one before the call with the request
  counter advanced and the consumed segments gone from the socket: \<open>post\<close> is in
  neither, so the next call starts from the segments that follow.
\<close>

theorem C9_bytes_after_newline_discarded:
  assumes "mcp_sock c = Some s"
    and "sock_send (encode cdc (dumps cdc (mcp_make_request method params (mcp_request_id c + 1))
                                  @ [newline])) s = (True, s1)"
    and "incoming s1 = map Data (map fst pieces) @ Data bs # rest"
    and "\<forall>p\<in>set pieces. fst p \<noteq> [] \<and> length (fst p) \<le> 4096
           \<and> decode cdc (fst p) = Some (snd p) \<and> snd p \<noteq> [] \<and> newline \<notin> set (snd p)"
    and "bs \<noteq> []" and "length bs \<le> 4096"
    and "decode cdc bs = Some (pre @ newline # post)" and "newline \<notin> set pre"
  shows "mcp_send_request cdc method params c =
    ((if concat (map snd pieces) @ pre = [] then JNull
      else case loads cdc (concat (map snd pieces) @ pre) of None \<Rightarrow> JNull | Some r \<Rightarrow> r),
     c\<lparr>mcp_request_id := mcp_request_id c + 1,
       mcp_sock := Some (s1\<lparr>incoming := rest,
                            recv_log := recv_log s1 @ replicate (Suc (length pieces)) 4096\<rparr>)\<rparr>)"
proof -
  have "recv_line_loop cdc [] s1 =
    (Some ([] @ concat (map snd pieces) @ pre),
     s1\<lparr>incoming := rest, recv_log := recv_log s1 @ replicate (Suc (length pieces)) 4096\<rparr>)"
    using assms(3-8) by (intro recv_line_loop_pieces) simp_all
  with assms(1,2) show ?thesis
    by (simp add: mcp_send_request_def Let_def split: option.splits)
qed


theorem C9_bytes_after_newline_discarded_witness:
  "fst (mcp_send_request test_codec ''tools/call''
          (Some (JObj [(''name'', JStr ''echo''), (''arguments'', JObj [])]))
          mcp_pipelined_client) = mcp_tool_result_json
   \<and> (\<exists>s'. mcp_sock (snd (mcp_send_request test_codec ''tools/call''
                 (Some (JObj [(''name'', JStr ''echo''), (''arguments'', JObj [])]))
                 mcp_pipelined_client)) = Some s' \<and> incoming s' = [])
   \<and> fst (mcp_send_request test_codec ''ping'' None
            (snd (mcp_send_request test_codec ''tools/call''
                    (Some (JObj [(''name'', JStr ''echo''), (''arguments'', JObj [])]))
                    mcp_pipelined_client))) = JNull"
proof -
  let ?params = "Some (JObj [(''name'', JStr ''echo''), (''arguments'', JObj [])])"
  let ?first = "mcp_send_request test_codec ''tools/call'' ?params mcp_pipelined_client"
  let ?b1 = "ascii_encode (take 10 mcp_tool_result_text)"
  let ?b2 = "ascii_encode (drop 10 mcp_tool_result_text @ [newline] @ progress_text @ [newline])"
  let ?s = "idle_socket\<lparr>incoming := [Data ?b1, Data ?b2]\<rparr>"
  let ?out = "encode test_codec
      (dumps test_codec (mcp_make_request ''tools/call'' ?params
                           (mcp_request_id mcp_pipelined_client + 1)) @ [newline])"
  let ?s1 = "snd (sock_send ?out ?s)"
  let ?pieces = "[(?b1, take 10 mcp_tool_result_text)]"
  have h1: "mcp_sock mcp_pipelined_client = Some ?s"
    by (simp add: mcp_pipelined_client_def mcp_ready_def)
  have h2: "sock_send ?out ?s = (True, ?s1)"
    by (simp add: prod_eq_iff sock_send_def sock_sendall_def idle_socket_def)
  have h3: "incoming ?s1 = map Data (map fst ?pieces) @ Data ?b2 # []"
    by (simp add: sock_send_def sock_sendall_def idle_socket_def)
  have h4: "\<forall>p\<in>set ?pieces. fst p \<noteq> [] \<and> length (fst p) \<le> 4096
           \<and> decode test_codec (fst p) = Some (snd p) \<and> snd p \<noteq> []
           \<and> newline \<notin> set (snd p)"
    by (simp add: mcp_tool_result_text_def example_defs newline_def)
  have h5: "?b2 \<noteq> []" "length ?b2 \<le> 4096"
    by (simp_all add: ascii_encode_def mcp_tool_result_text_def progress_text_def)
  have h6: "decode test_codec ?b2
      = Some (drop 10 mcp_tool_result_text @ newline # (progress_text @ [newline]))"
    by (simp add: mcp_tool_result_text_def progress_text_def example_defs newline_def)
  have h7: "newline \<notin> set (drop 10 mcp_tool_result_text)"
    by (simp add: mcp_tool_result_text_def newline_def)
  have line: "concat (map snd ?pieces) @ drop 10 mcp_tool_result_text = mcp_tool_result_text"
    by simp
  have parsed: "mcp_tool_result_text \<noteq> []"
    "loads test_codec mcp_tool_result_text = Some mcp_tool_result_json"
    by (simp_all add: mcp_notified_eval)
  note inst = C9_bytes_after_newline_discarded [OF h1 h2 h3 h4 h5 h6 h7, unfolded line]
  from inst parsed have a: "fst ?first = mcp_tool_result_json"
    by simp
  from inst have b: "\<exists>s'. mcp_sock (snd ?first) = Some s' \<and> incoming s' = []"
    by simp
  have c: "fst (mcp_send_request test_codec ''ping'' None (snd ?first)) = JNull"
    by (simp add: mcp_pipelined_client_def mcp_notified_eval)
  from a b c show ?thesis by simp
qed

section \<open>The log file: C8\<close>

lemma digit_char_is_digit: "d < 10 \<Longrightarrow> is_digit (digit_char d)"
proof -
  assume "d < 10"
  then have "d \<in> {0, 1, 2, 3, 4, 5, 6, 7, 8, 9}" by auto
  then show ?thesis
    by (auto simp: is_digit_def digit_char_def)
qed

lemma str_nat_digits: "list_all is_digit (str_nat n)"
proof (induction n rule: str_nat.induct)
  case (1 n)
  show ?case
  proof (cases "n < 10")
    case True
    then show ?thesis by (subst str_nat.simps) (simp add: digit_char_is_digit)
  next
    case False
    with 1 show ?thesis
      by (subst str_nat.simps) (simp add: digit_char_is_digit)
  qed
qed

lemma str_nat_length: "0 < k \<Longrightarrow> n < 10 ^ k \<Longrightarrow> length (str_nat n) \<le> k"
proof (induction k arbitrary: n)
  case 0
  then show ?case by simp
next
  case (Suc k)
  show ?case
  proof (cases "n < 10")
    case True
    then show ?thesis by (subst str_nat.simps) simp
  next
    case False
    with Suc.prems have k: "0 < k" by (cases k) auto
    from Suc.prems have "n div 10 < 10 ^ k" by (simp add: less_mult_imp_div_less mult.commute)
    from Suc.IH [OF k this] False show ?thesis
      by (subst str_nat.simps) simp
  qed
qed

lemma matches_digits: "list_all is_digit str \<Longrightarrow> matches (replicate (length str) (CHR ''d'')) str"
  by (induction str) simp_all

lemma matches_append:
  "matches p1 s1 \<Longrightarrow> matches p2 s2 \<Longrightarrow> matches (p1 @ p2) (s1 @ s2)"
  by (induction p1 s1 rule: matches.induct) simp_all

lemma zfill_matches:
  assumes "0 < w" and "n < 10 ^ w"
  shows "matches (replicate w (CHR ''d'')) (zfill w n)"
proof -
  let ?k = "w - length (str_nat n)"
  from str_nat_length [OF assms] have len: "length (zfill w n) = w"
    by (simp add: zfill_def)
  have "is_digit (CHR ''0'')" by (simp add: is_digit_def)
  then have "list_all is_digit (zfill w n)"
    using str_nat_digits [of n] by (auto simp: zfill_def list_all_iff)
  from matches_digits [OF this] len show ?thesis by simp
qed

lemma replicate_small:
  "replicate 2 x = [x, x]" "replicate 4 x = [x, x, x, x]" "replicate 6 x = [x, x, x, x, x, x]"
  by (simp_all add: eval_nat_numeral)

lemma isoformat_iso8601:
  assumes "valid_datetime t"
  shows "iso8601 (isoformat t)"
proof -
  from assms have y: "matches ''dddd'' (zfill 4 (year t))"
    using zfill_matches [of 4 "year t"] by (simp add: valid_datetime_def replicate_small)
  from assms have mo: "matches ''dd'' (zfill 2 (month t))"
    using zfill_matches [of 2 "month t"] by (simp add: valid_datetime_def replicate_small)
  from assms have d: "matches ''dd'' (zfill 2 (day t))"
    using zfill_matches [of 2 "day t"] by (simp add: valid_datetime_def replicate_small)
  from assms have h: "matches ''dd'' (zfill 2 (hour t))"
    using zfill_matches [of 2 "hour t"] by (simp add: valid_datetime_def replicate_small)
  from assms have mi: "matches ''dd'' (zfill 2 (minute t))"
    using zfill_matches [of 2 "minute t"] by (simp add: valid_datetime_def replicate_small)
  from assms have s: "matches ''dd'' (zfill 2 (second t))"
    using zfill_matches [of 2 "second t"] by (simp add: valid_datetime_def replicate_small)
  from assms have us: "matches ''dddddd'' (zfill 6 (microsecond t))"
    using zfill_matches [of 6 "microsecond t"] by (simp add: valid_datetime_def replicate_small)
  have lit: "matches ''-'' ''-''" "matches ''T'' ''T''" "matches '':'' '':''" "matches ''.'' ''.''"
    by simp_all
  have base: "matches (''dddd'' @ ''-'' @ ''dd'' @ ''-'' @ ''dd'' @ ''T'' @ ''dd'' @ '':'' @ ''dd''
        @ '':'' @ ''dd'')
      (zfill 4 (year t) @ ''-'' @ zfill 2 (month t) @ ''-'' @ zfill 2 (day t) @ ''T''
       @ zfill 2 (hour t) @ '':'' @ zfill 2 (minute t) @ '':'' @ zfill 2 (second t))"
    by (intro matches_append y mo d h mi s lit)
  show ?thesis
  proof (cases "microsecond t = 0")
    case True
    with base show ?thesis by (simp add: iso8601_def isoformat_def)
  next
    case False
    have "matches ((''dddd'' @ ''-'' @ ''dd'' @ ''-'' @ ''dd'' @ ''T'' @ ''dd'' @ '':'' @ ''dd''
        @ '':'' @ ''dd'') @ ''.'' @ ''dddddd'')
      ((zfill 4 (year t) @ ''-'' @ zfill 2 (month t) @ ''-'' @ zfill 2 (day t) @ ''T''
       @ zfill 2 (hour t) @ '':'' @ zfill 2 (minute t) @ '':'' @ zfill 2 (second t))
       @ ''.'' @ zfill 6 (microsecond t))"
      by (intro matches_append base us lit)
    with False show ?thesis by (simp add: iso8601_def isoformat_def)
  qed
qed

lemma rjust_right_aligned: "right_aligned w str (rjust w str)"
  by (auto simp: right_aligned_def rjust_def)


lemma is_prefix_append: "is_prefix pat (pat @ ys)"
  by (induction pat) simp_all

lemma str_contains_here: "str_contains pat (pat @ ys)"
proof (cases "pat @ ys")
  case Nil
  then show ?thesis by simp
next
  case (Cons a list)
  with is_prefix_append [of pat ys] have "is_prefix pat (a # list)" by simp
  with Cons show ?thesis by simp
qed

lemma str_contains_mid: "str_contains pat (xs @ pat @ ys)"
proof (induction xs)
  case Nil
  show ?case using str_contains_here [of pat ys] by simp
next
  case (Cons x xs)
  then show ?case by simp
qed

lemma write_log_entry_open:
  assumes "log_file r = Some f" and "\<not> is_closed f"
  shows "write_log_entry entry r =
    (Ret (), r\<lparr>log_file := Some (f\<lparr>flushed := flushed f @ pending f @ log_line entry,
                                      pending := []\<rparr>)\<rparr>)"
  using assms by (simp add: write_log_entry_def file_write_def file_flush_def)

lemma process_entries_file:
  assumes "log_file r = Some f" and "\<not> is_closed f" and "pending f = []"
  shows "log_file (process_entries entries r)
    = Some (f\<lparr>flushed := flushed f @ concat (map log_line entries)\<rparr>)"
  using assms
proof (induction entries arbitrary: r f)
  case Nil
  then show ?case by simp
next
  case (Cons entry entries)
  let ?r1 = "display_log_entry entry r"
  let ?f1 = "f\<lparr>flushed := flushed f @ log_line entry\<rparr>"
  have lf: "log_file ?r1 = Some f"
    using Cons.prems(1) by (simp add: display_log_entry_def Let_def split: prod.splits)
  from write_log_entry_open [OF lf Cons.prems(2), of entry] Cons.prems(3)
  have w: "write_log_entry entry ?r1 = (Ret (), ?r1\<lparr>log_file := Some ?f1\<rparr>)"
    by simp
  with lf have pe: "process_entry entry r = ?r1\<lparr>log_file := Some ?f1\<rparr>"
    by (simp add: process_entry_def Let_def)
  have "log_file (process_entries entries (?r1\<lparr>log_file := Some ?f1\<rparr>))
      = Some (?f1\<lparr>flushed := flushed ?f1 @ concat (map log_line entries)\<rparr>)"
    using Cons.prems by (intro Cons.IH) simp_all
  with pe show ?case by simp
qed

lemma start_logging_file:
  assumes "path \<noteq> []"
  shows "start_logging now (Some path) r =
    (Ret (), r\<lparr>log_file := Some \<lparr>flushed = log_header now r, pending = [], is_closed = False\<rparr>,
               running := True\<rparr>)"
  using assms
  by (simp add: start_logging_def write_log_header_def file_open_w_def file_write_def
      file_flush_def log_header_def)

text \<open>
  C8. The log file. Writing an entry to an open file appends its line and flushes, so that
  nothing stays in the buffer. The line is the \<^verbatim>\<open>isoformat\<close> timestamp (of ISO-8601
  shape for every \<^verbatim>\<open>datetime\<close>), a space, the source right-aligned to width 7 in
  brackets, a space, the level right-aligned to width 5, a colon and a space, the message
  and a newline. After \<^verbatim>\<open>start_logging\<close> with a path and any sequence of entries
  taken by the consumer loop, the file holds the header followed by the entries' lines in
  order, all flushed; the header has the lines naming the generation time, the target IP,
  the serial port and the baud rate.
\<close>

theorem C8_log_file_format:
  "(log_file r = Some f \<and> \<not> is_closed f \<longrightarrow>
      write_log_entry entry r =
        (Ret (), r\<lparr>log_file := Some (f\<lparr>flushed := flushed f @ pending f @ log_line entry,
                                          pending := []\<rparr>)\<rparr>))
   \<and> (\<exists>ts stag ltag.
         log_line entry = ts @ '' ['' @ stag @ ''] '' @ ltag @ '': '' @ message entry @ [newline]
       \<and> ts = isoformat (timestamp entry)
       \<and> (valid_datetime (timestamp entry) \<longrightarrow> iso8601 ts)
       \<and> right_aligned 7 (source entry) stag \<and> right_aligned 5 (level entry) ltag)
   \<and> (path \<noteq> [] \<longrightarrow>
        (\<exists>r0. start_logging now (Some path) r = (Ret (), r0)
           \<and> log_file (process_entries entries r0)
               = Some \<lparr>flushed = log_header now r @ concat (map log_line entries),
                       pending = [], is_closed = False\<rparr>))
   \<and> str_contains (''# Generated: '' @ isoformat now @ [newline]) (log_header now r)
   \<and> str_contains (''# ESP8266 IP: '' @ esp_ip r @ [newline]) (log_header now r)
   \<and> str_contains (''# Serial Port: '' @ serial_port r @ [newline]) (log_header now r)
   \<and> str_contains (''# Baud Rate: '' @ str_int (baud_rate r) @ [newline]) (log_header now r)"
proof -
  have one: "write_log_entry entry r =
        (Ret (), r\<lparr>log_file := Some (f\<lparr>flushed := flushed f @ pending f @ log_line entry,
                                          pending := []\<rparr>)\<rparr>)"
    if "log_file r = Some f \<and> \<not> is_closed f"
    using that by (intro write_log_entry_open) simp_all
  have shape: "\<exists>ts stag ltag.
         log_line entry = ts @ '' ['' @ stag @ ''] '' @ ltag @ '': '' @ message entry @ [newline]
       \<and> ts = isoformat (timestamp entry)
       \<and> (valid_datetime (timestamp entry) \<longrightarrow> iso8601 ts)
       \<and> right_aligned 7 (source entry) stag \<and> right_aligned 5 (level entry) ltag"
    by (intro exI [of _ "isoformat (timestamp entry)"] exI [of _ "rjust 7 (source entry)"]
          exI [of _ "rjust 5 (level entry)"])
       (simp add: log_line_def isoformat_iso8601 rjust_right_aligned)
  have whole: "\<exists>r0. start_logging now (Some path) r = (Ret (), r0)
           \<and> log_file (process_entries entries r0)
               = Some \<lparr>flushed = log_header now r @ concat (map log_line entries),
                       pending = [], is_closed = False\<rparr>"
    if "path \<noteq> []"
  proof -
    let ?f = "\<lparr>flushed = log_header now r, pending = [], is_closed = False\<rparr>"
    let ?r0 = "r\<lparr>log_file := Some ?f, running := True\<rparr>"
    have "log_file (process_entries entries ?r0)
        = Some (?f\<lparr>flushed := flushed ?f @ concat (map log_line entries)\<rparr>)"
      by (intro process_entries_file) simp_all
    with start_logging_file [OF that, of now r] show ?thesis by simp
  qed
  have h1: "str_contains (''# Generated: '' @ isoformat now @ [newline]) (log_header now r)"
    using str_contains_mid [of "''# Generated: '' @ isoformat now @ [newline]"
        "[newline] @ ''# ESP8266 MCP Integrated Test Log'' @ [newline]"
        "''# ESP8266 IP: '' @ esp_ip r @ [newline]
         @ ''# Serial Port: '' @ serial_port r @ [newline]
         @ ''# Baud Rate: '' @ str_int (baud_rate r) @ [newline]
         @ replicate 80 (CHR ''='') @ [newline]"]
    by (simp add: log_header_def)
  have h2: "str_contains (''# ESP8266 IP: '' @ esp_ip r @ [newline]) (log_header now r)"
    using str_contains_mid [of "''# ESP8266 IP: '' @ esp_ip r @ [newline]"
        "[newline] @ ''# ESP8266 MCP Integrated Test Log'' @ [newline]
         @ ''# Generated: '' @ isoformat now @ [newline]"
        "''# Serial Port: '' @ serial_port r @ [newline]
         @ ''# Baud Rate: '' @ str_int (baud_rate r) @ [newline]
         @ replicate 80 (CHR ''='') @ [newline]"]
    by (simp add: log_header_def)
  have h3: "str_contains (''# Serial Port: '' @ serial_port r @ [newline]) (log_header now r)"
    using str_contains_mid [of "''# Serial Port: '' @ serial_port r @ [newline]"
        "[newline] @ ''# ESP8266 MCP Integrated Test Log'' @ [newline]
         @ ''# Generated: '' @ isoformat now @ [newline]
         @ ''# ESP8266 IP: '' @ esp_ip r @ [newline]"
        "''# Baud Rate: '' @ str_int (baud_rate r) @ [newline]
         @ replicate 80 (CHR ''='') @ [newline]"]
    by (simp add: log_header_def)
  have h4: "str_contains (''# Baud Rate: '' @ str_int (baud_rate r) @ [newline]) (log_header now r)"
    using str_contains_mid [of "''# Baud Rate: '' @ str_int (baud_rate r) @ [newline]"
        "[newline] @ ''# ESP8266 MCP Integrated Test Log'' @ [newline]
         @ ''# Generated: '' @ isoformat now @ [newline]
         @ ''# ESP8266 IP: '' @ esp_ip r @ [newline]
         @ ''# Serial Port: '' @ serial_port r @ [newline]"
        "replicate 80 (CHR ''='') @ [newline]"]
    by (simp add: log_header_def)
  from one shape whole h1 h2 h3 h4 show ?thesis by blast
qed


theorem C8_log_file_format_witness:
  "log_line boot_entry = ''2025-01-02T03:04:05.006789 [ CLIENT]  TEST: Starting test'' @ [newline]
   \<and> log_line warn_entry = ''2025-01-02T03:04:06 [ESP8266] WARNING: [wifi] retry'' @ [newline]
   \<and> iso8601 (isoformat (timestamp boot_entry))
   \<and> write_log_entry boot_entry (new_runner\<lparr>log_file := Some file_open_w\<rparr>)
       = (Ret (), new_runner\<lparr>log_file := Some (file_open_w\<lparr>flushed := log_line boot_entry\<rparr>)\<rparr>)
   \<and> (\<exists>r0. start_logging start_time (Some ''run.log'') new_runner = (Ret (), r0)
          \<and> log_file (process_entries [boot_entry, warn_entry] r0)
              = Some \<lparr>flushed = log_header start_time new_runner
                                 @ log_line boot_entry @ log_line warn_entry,
                      pending = [], is_closed = False\<rparr>)
   \<and> str_contains (''# ESP8266 IP: 192.168.1.100'' @ [newline])
         (log_header start_time new_runner)
   \<and> str_contains (''# Baud Rate: 74880'' @ [newline]) (log_header start_time new_runner)"
proof -
  have l1: "log_line boot_entry
      = ''2025-01-02T03:04:05.006789 [ CLIENT]  TEST: Starting test'' @ [newline]"
    by (simp add: log_line_def isoformat_def zfill_def str_nat.simps digit_char_def rjust_def
        boot_entry_def replicate_small)
  have l2: "log_line warn_entry
      = ''2025-01-02T03:04:06 [ESP8266] WARNING: [wifi] retry'' @ [newline]"
    by (simp add: log_line_def isoformat_def zfill_def str_nat.simps digit_char_def rjust_def
        warn_entry_def replicate_small)
  have v: "valid_datetime (timestamp boot_entry)"
    by (simp add: valid_datetime_def boot_entry_def)
  have f: "log_file (new_runner\<lparr>log_file := Some file_open_w\<rparr>) = Some file_open_w
      \<and> \<not> is_closed file_open_w"
    by (simp add: file_open_w_def)
  have p: "''run.log'' \<noteq> []" by simp
  note a = C8_log_file_format [where r = "new_runner\<lparr>log_file := Some file_open_w\<rparr>"
      and f = file_open_w and entry = boot_entry and path = "''run.log''"]
  note b = C8_log_file_format [where r = new_runner and now = start_time
      and path = "''run.log''" and entries = "[boot_entry, warn_entry]"]
  from a v have iso: "iso8601 (isoformat (timestamp boot_entry))" by blast
  from a f have w: "write_log_entry boot_entry (new_runner\<lparr>log_file := Some file_open_w\<rparr>)
       = (Ret (), new_runner\<lparr>log_file := Some (file_open_w\<lparr>flushed := log_line boot_entry\<rparr>)\<rparr>)"
    by (simp add: file_open_w_def)
  from b p have whole: "\<exists>r0. start_logging start_time (Some ''run.log'') new_runner = (Ret (), r0)
          \<and> log_file (process_entries [boot_entry, warn_entry] r0)
              = Some \<lparr>flushed = log_header start_time new_runner
                                 @ log_line boot_entry @ log_line warn_entry,
                      pending = [], is_closed = False\<rparr>"
    by simp
  from b have hdr: "str_contains (''# ESP8266 IP: 192.168.1.100'' @ [newline])
         (log_header start_time new_runner)
     \<and> str_contains (''# Baud Rate: 74880'' @ [newline]) (log_header start_time new_runner)"
    by (simp add: new_runner_def str_int_def str_nat.simps digit_char_def)
  from l1 l2 iso w whole hdr show ?thesis by blast
qed

section \<open>Stopping the aggregator: C10\<close>

lemma display_keeps:
  "running (display_log_entry e r) = running r \<and> log_queue (display_log_entry e r) = log_queue r
   \<and> log_file (display_log_entry e r) = log_file r
   \<and> length (console (display_log_entry e r)) = Suc (length (console r))"
  by (simp add: display_log_entry_def Let_def split: prod.splits)

lemma log_text_display: "log_text (display_log_entry e r) = log_text r"
  by (simp add: log_text_def display_keeps)

lemma do_action_keeps_stopped:
  assumes "\<not> running (runner a)"
  shows "\<not> running (runner (do_action x a))"
proof (cases x)
  case Consume
  with assms show ?thesis
    by (auto simp: process_log_queue_step_def display_keeps
        split: consumer_pc.splits list.splits option.splits prod.splits res.splits)
next
  case Stop
  with assms show ?thesis
    by (simp add: stop_logging_step_def split: stopper_pc.splits)
next
  case (Put entry)
  with assms show ?thesis by (simp add: put_entry_def)
qed

lemma run_schedule_keeps_stopped:
  assumes "\<not> running (runner a)"
  shows "\<not> running (runner (run_schedule sched a))"
  using assms
proof (induction sched arbitrary: a)
  case Nil
  then show ?case by simp
next
  case (Cons x sched)
  from Cons.IH [OF do_action_keeps_stopped [OF Cons.prems, of x]] show ?case by simp
qed

lemma drop_drop_append:
  assumes "k1 \<le> length xs"
  shows "drop k2 (drop k1 xs @ ys) = drop (k1 + k2) (xs @ ys)"
proof -
  from assms have e: "drop k1 xs @ ys = drop k1 (xs @ ys)" by simp
  have "drop k2 (drop k1 (xs @ ys)) = drop (k2 + k1) (xs @ ys)" by (rule drop_drop)
  then show ?thesis by (simp only: e add.commute)
qed

lemma stop_logging_runs_alone:
  assumes "stopper a = SClear"
  shows "stopper (run_schedule [Stop, Stop, Stop] a) = SDone
    \<and> consumer (run_schedule [Stop, Stop, Stop] a) = consumer a
    \<and> log_queue (runner (run_schedule [Stop, Stop, Stop] a)) = log_queue (runner a)
    \<and> console (runner (run_schedule [Stop, Stop, Stop] a)) = console (runner a)
    \<and> \<not> running (runner (run_schedule [Stop, Stop, Stop] a))
    \<and> log_file (runner (run_schedule [Stop, Stop, Stop] a))
        = map_option file_close (log_file (runner a))"
  using assms by (simp add: stop_logging_step_def)

lemma display_console_cong:
  "console r = console r' \<Longrightarrow> console (display_log_entry e r) = console (display_log_entry e r')"
  by (simp add: display_log_entry_def Let_def split: prod.splits)

lemma fold_display_console_cong:
  "console r = console r' \<Longrightarrow>
   console (fold display_log_entry es r) = console (fold display_log_entry es r')"
proof (induction es arbitrary: r r')
  case Nil
  then show ?case by simp
next
  case (Cons e es)
  from display_console_cong [OF Cons.prems]
  have "console (display_log_entry e r) = console (display_log_entry e r')" .
  from Cons.IH [OF this] show ?case by simp
qed

lemma take_take_append:
  assumes "k1 \<le> length xs"
  shows "take k1 xs @ take k2 (drop k1 xs @ ys) = take (k1 + k2) (xs @ ys)"
proof -
  from assms have e: "drop k1 xs @ ys = drop k1 (xs @ ys)" and t: "take k1 xs = take k1 (xs @ ys)"
    by simp_all
  show ?thesis by (simp only: e t take_add)
qed

lemma do_action_entries:
  assumes "\<not> running (runner a)"
  shows "\<exists>k shown handled written.
           entries_after_stop a (do_action x a) k (put_entries [x]) shown handled written"
proof (cases x)
  case Consume
  show ?thesis
  proof (cases "consumer a")
    case CTest
    with Consume assms have "entries_after_stop a (do_action x a) 0 (put_entries [x]) [] [] []"
      by (simp add: entries_after_stop_def process_log_queue_step_def)
    then show ?thesis by blast
  next
    case CGet
    show ?thesis
    proof (cases "log_queue (runner a)")
      case Nil
      with Consume CGet have "entries_after_stop a (do_action x a) 0 (put_entries [x]) [] [] []"
        by (simp add: entries_after_stop_def process_log_queue_step_def log_text_def)
      then show ?thesis by blast
    next
      case (Cons entry queue)
      with Consume CGet have "entries_after_stop a (do_action x a) 1 (put_entries [x]) [] [] []"
        by (simp add: entries_after_stop_def process_log_queue_step_def log_text_def)
      then show ?thesis by blast
    qed
  next
    case (CDisplay entry)
    with Consume have "entries_after_stop a (do_action x a) 0 (put_entries [x]) [entry] [] []"
      by (simp add: entries_after_stop_def process_log_queue_step_def display_keeps
          log_text_display)
    then show ?thesis by blast
  next
    case (CWrite entry)
    show ?thesis
    proof (cases "\<exists>f. log_file (runner a) = Some f \<and> \<not> is_closed f")
      case True
      with CWrite Consume have "entries_after_stop a (do_action x a) 0 (put_entries [x]) [] [entry] [entry]"
        by (auto simp: entries_after_stop_def process_log_queue_step_def file_write_def
            log_text_def)
      then show ?thesis by blast
    next
      case False
      with CWrite Consume have "entries_after_stop a (do_action x a) 0 (put_entries [x]) [] [entry] []"
        by (auto simp: entries_after_stop_def process_log_queue_step_def file_write_def
            log_text_def split: option.splits)
      then show ?thesis by blast
    qed
  next
    case CFlush
    with Consume have "entries_after_stop a (do_action x a) 0 (put_entries [x]) [] [] []"
      by (simp add: entries_after_stop_def process_log_queue_step_def file_flush_def
          log_text_def split: option.splits)
    then show ?thesis by blast
  next
    case CExit
    with Consume have "entries_after_stop a (do_action x a) 0 (put_entries [x]) [] [] []"
      by (simp add: entries_after_stop_def process_log_queue_step_def)
    then show ?thesis by blast
  qed
next
  case Stop
  then have "entries_after_stop a (do_action x a) 0 (put_entries [x]) [] [] []"
    by (simp add: entries_after_stop_def stop_logging_step_def log_text_def file_close_def
        split: stopper_pc.splits option.splits)
  then show ?thesis by blast
next
  case (Put entry)
  then have "entries_after_stop a (do_action x a) 0 (put_entries [x]) [] [] []"
    by (simp add: entries_after_stop_def put_entry_def log_text_def)
  then show ?thesis by blast
qed

lemma entries_after_stop_trans:
  assumes ab: "entries_after_stop a b k1 added1 shown1 handled1 written1"
    and bc: "entries_after_stop b c k2 added2 shown2 handled2 written2"
  shows "entries_after_stop a c (k1 + k2) (added1 @ added2) (shown1 @ shown2)
           (handled1 @ handled2) (written1 @ written2)"
proof -
  let ?q = "log_queue (runner a)"
  from ab have g1: "k1 + gets_left (consumer b) \<le> gets_left (consumer a)"
    and n1: "k1 \<le> length (?q @ added1)"
    and q1: "log_queue (runner b) = drop k1 (?q @ added1)"
    and s1: "shown1 @ held_for_display (consumer b)
               = held_for_display (consumer a) @ take k1 (?q @ added1)"
    and c1: "console (runner b) = console (fold display_log_entry shown1 (runner a))"
    and h1: "handled1 @ held_for_write (consumer b)
               = held_for_write (consumer a) @ take k1 (?q @ added1)"
    and w1: "set written1 \<subseteq> set handled1" "length written1 \<le> length handled1"
    and t1: "log_text (runner b) = log_text (runner a) @ concat (map log_line written1)"
    by (simp_all add: entries_after_stop_def)
  from bc have g2: "k2 + gets_left (consumer c) \<le> gets_left (consumer b)"
    and n2: "k2 \<le> length (log_queue (runner b) @ added2)"
    and q2: "log_queue (runner c) = drop k2 (log_queue (runner b) @ added2)"
    and s2: "shown2 @ held_for_display (consumer c)
               = held_for_display (consumer b) @ take k2 (log_queue (runner b) @ added2)"
    and c2: "console (runner c) = console (fold display_log_entry shown2 (runner b))"
    and h2: "handled2 @ held_for_write (consumer c)
               = held_for_write (consumer b) @ take k2 (log_queue (runner b) @ added2)"
    and w2: "set written2 \<subseteq> set handled2" "length written2 \<le> length handled2"
    and t2: "log_text (runner c) = log_text (runner b) @ concat (map log_line written2)"
    by (simp_all add: entries_after_stop_def)
  have app: "(?q @ added1) @ added2 = ?q @ (added1 @ added2)" by simp
  from g1 g2 have g: "(k1 + k2) + gets_left (consumer c) \<le> gets_left (consumer a)" by simp
  from n1 n2 q1 have n: "k1 + k2 \<le> length (?q @ (added1 @ added2))" by simp
  from drop_drop_append [OF n1, of k2 added2] q1 q2
  have q: "log_queue (runner c) = drop (k1 + k2) (?q @ (added1 @ added2))" by simp
  from take_take_append [OF n1, of k2 added2]
  have tk: "take k1 (?q @ added1) @ take k2 (log_queue (runner b) @ added2)
              = take (k1 + k2) (?q @ (added1 @ added2))"
    by (simp only: q1 app)
  have "(shown1 @ shown2) @ held_for_display (consumer c)
          = shown1 @ (held_for_display (consumer b) @ take k2 (log_queue (runner b) @ added2))"
    using s2 by simp
  also have "\<dots> = (held_for_display (consumer a) @ take k1 (?q @ added1))
                    @ take k2 (log_queue (runner b) @ added2)"
    using s1 by simp
  also have "\<dots> = held_for_display (consumer a) @ take (k1 + k2) (?q @ (added1 @ added2))"
    using tk by simp
  finally have s: "(shown1 @ shown2) @ held_for_display (consumer c)
          = held_for_display (consumer a) @ take (k1 + k2) (?q @ (added1 @ added2))" .
  have "(handled1 @ handled2) @ held_for_write (consumer c)
          = handled1 @ (held_for_write (consumer b) @ take k2 (log_queue (runner b) @ added2))"
    using h2 by simp
  also have "\<dots> = (held_for_write (consumer a) @ take k1 (?q @ added1))
                    @ take k2 (log_queue (runner b) @ added2)"
    using h1 by simp
  also have "\<dots> = held_for_write (consumer a) @ take (k1 + k2) (?q @ (added1 @ added2))"
    using tk by simp
  finally have h: "(handled1 @ handled2) @ held_for_write (consumer c)
          = held_for_write (consumer a) @ take (k1 + k2) (?q @ (added1 @ added2))" .
  from fold_display_console_cong [OF c1, of shown2] c2
  have cc: "console (runner c) = console (fold display_log_entry (shown1 @ shown2) (runner a))"
    by simp
  from w1 w2 have w: "set (written1 @ written2) \<subseteq> set (handled1 @ handled2)"
    "length (written1 @ written2) \<le> length (handled1 @ handled2)" by auto
  from t1 t2 have t: "log_text (runner c)
      = log_text (runner a) @ concat (map log_line (written1 @ written2))" by simp
  from g n q s cc h w t show ?thesis
    unfolding entries_after_stop_def by blast
qed

lemma put_entries_Cons: "put_entries (x # xs) = put_entries [x] @ put_entries xs"
  by (cases x) simp_all

lemma run_schedule_entries:
  assumes "\<not> running (runner a)"
  shows "\<exists>k shown handled written.
           entries_after_stop a (run_schedule sched a) k (put_entries sched) shown handled written"
  using assms
proof (induction sched arbitrary: a)
  case Nil
  have "entries_after_stop a (run_schedule [] a) 0 (put_entries []) [] [] []"
    by (simp add: entries_after_stop_def)
  then show ?case by blast
next
  case (Cons x sched)
  from do_action_entries [OF Cons.prems, of x] obtain k1 shown1 handled1 written1
    where one: "entries_after_stop a (do_action x a) k1 (put_entries [x]) shown1 handled1 written1"
    by blast
  from do_action_keeps_stopped [OF Cons.prems, of x]
  have nb: "\<not> running (runner (do_action x a))" .
  from Cons.IH [OF nb] obtain k2 shown2 handled2 written2
    where rest: "entries_after_stop (do_action x a) (run_schedule sched (do_action x a))
                   k2 (put_entries sched) shown2 handled2 written2"
    by blast
  from entries_after_stop_trans [OF one rest]
  have "entries_after_stop a (run_schedule (x # sched) a) (k1 + k2) (put_entries (x # sched))
          (shown1 @ shown2) (handled1 @ handled2) (written1 @ written2)"
    by (simp only: run_schedule.simps put_entries_Cons [of x sched])
  then show ?case by blast
qed

lemma prefix_of_short:
  assumes "xs @ ys = zs" and "length zs \<le> 1"
  shows "xs = [] \<or> xs = zs"
  using assms by (cases xs; cases ys) auto

lemma part_of_short:
  assumes "set ws \<subseteq> set hs" and "length ws \<le> length hs" and "length hs \<le> 1"
  shows "ws = [] \<or> ws = hs"
  using assms by (cases hs; cases ws) auto

lemma held_short:
  assumes "k \<le> gets_left pc"
  shows "length (held_for_write pc @ take k q) \<le> 1
    \<and> length (held_for_display pc @ take k q) \<le> 1"
  using assms by (cases pc) auto

lemma run_schedule_head_only:
  assumes down: "\<not> running (runner a)"
  shows "\<not> running (runner (run_schedule sched a))
      \<and> (\<exists>k shown written.
            k \<le> gets_left (consumer a)
            \<and> log_queue (runner (run_schedule sched a)) = drop k (log_queue (runner a) @ put_entries sched)
            \<and> length (held_for_write (consumer a) @ take k (log_queue (runner a) @ put_entries sched)) \<le> 1
            \<and> (shown = []
                \<or> shown = held_for_display (consumer a) @ take k (log_queue (runner a) @ put_entries sched))
            \<and> console (runner (run_schedule sched a))
                = console (fold display_log_entry shown (runner a))
            \<and> (written = []
                \<or> written = held_for_write (consumer a) @ take k (log_queue (runner a) @ put_entries sched))
            \<and> log_text (runner (run_schedule sched a))
                = log_text (runner a) @ concat (map log_line written))"
proof -
  let ?b = "run_schedule sched a"
  from run_schedule_keeps_stopped [OF down, of sched]
  have r: "\<not> running (runner ?b)" .
  from run_schedule_entries [OF down, of sched]
  obtain k shown handled written
    where e: "entries_after_stop a ?b k (put_entries sched) shown handled written" by blast
  let ?q = "log_queue (runner a) @ put_entries sched"
  from e have g: "k \<le> gets_left (consumer a)"
    and q: "log_queue (runner ?b) = drop k ?q"
    and s: "shown @ held_for_display (consumer ?b) = held_for_display (consumer a) @ take k ?q"
    and c: "console (runner ?b) = console (fold display_log_entry shown (runner a))"
    and h: "handled @ held_for_write (consumer ?b) = held_for_write (consumer a) @ take k ?q"
    and w: "set written \<subseteq> set handled" "length written \<le> length handled"
    and t: "log_text (runner ?b) = log_text (runner a) @ concat (map log_line written)"
    by (simp_all add: entries_after_stop_def)
  from held_short [OF g, of ?q]
  have lw: "length (held_for_write (consumer a) @ take k ?q) \<le> 1"
    and ld: "length (held_for_display (consumer a) @ take k ?q) \<le> 1" by simp_all
  from prefix_of_short [OF s ld]
  have sh: "shown = [] \<or> shown = held_for_display (consumer a) @ take k ?q" .
  from prefix_of_short [OF h lw]
  have hd: "handled = [] \<or> handled = held_for_write (consumer a) @ take k ?q" .
  with lw have "length handled \<le> 1" by auto
  from part_of_short [OF w this] hd
  have wr: "written = [] \<or> written = held_for_write (consumer a) @ take k ?q" by auto
  from g q lw sh c wr t
  have "\<exists>k shown written.
          k \<le> gets_left (consumer a)
          \<and> log_queue (runner ?b) = drop k (log_queue (runner a) @ put_entries sched)
          \<and> length (held_for_write (consumer a) @ take k (log_queue (runner a) @ put_entries sched)) \<le> 1
          \<and> (shown = []
              \<or> shown = held_for_display (consumer a) @ take k (log_queue (runner a) @ put_entries sched))
          \<and> console (runner ?b) = console (fold display_log_entry shown (runner a))
          \<and> (written = []
              \<or> written = held_for_write (consumer a) @ take k (log_queue (runner a) @ put_entries sched))
          \<and> log_text (runner ?b) = log_text (runner a) @ concat (map log_line written)"
    by blast
  with r show ?thesis by simp
qed

lemmas aggregator_eval =
  flag_down_def started_def start_logging_file process_log_queue_step_def
  stop_logging_step_def put_entry_def display_log_entry_def log_text_def new_runner_def
  file_write_def file_flush_def file_close_def boot_entry_def warn_entry_def

text \<open>
  The run in which the flag goes down with two entries in the queue and the consumer
  past its loop test: whatever the threads do from there, more entries put into the
  queue included, the console shows nothing or the first entry alone and the log file
  has its header or its header and the line of the first entry. The second entry is
  never displayed and never written.
\<close>

lemma second_entry_unseen:
  "(console (runner (run_schedule sched flag_down)) = []
    \<or> console (runner (run_schedule sched flag_down))
        = console (display_log_entry boot_entry (runner flag_down)))
   \<and> (log_text (runner (run_schedule sched flag_down)) = log_header start_time new_runner
      \<or> log_text (runner (run_schedule sched flag_down))
          = log_header start_time new_runner @ log_line boot_entry)"
proof -
  let ?b = "run_schedule sched flag_down"
  have down: "\<not> running (runner flag_down)" and pc: "consumer flag_down = CGet"
    and q: "log_queue (runner flag_down) = [boot_entry, warn_entry]"
    and c: "console (runner flag_down) = []"
    and t: "log_text (runner flag_down) = log_header start_time new_runner"
    by (simp_all add: aggregator_eval)
  from run_schedule_head_only [OF down, of sched] obtain k shown written where
      k: "k \<le> gets_left (consumer flag_down)"
    and s: "shown = [] \<or> shown = held_for_display (consumer flag_down)
                   @ take k (log_queue (runner flag_down) @ put_entries sched)"
    and cb: "console (runner ?b) = console (fold display_log_entry shown (runner flag_down))"
    and w: "written = [] \<or> written = held_for_write (consumer flag_down)
                   @ take k (log_queue (runner flag_down) @ put_entries sched)"
    and tb: "log_text (runner ?b) = log_text (runner flag_down) @ concat (map log_line written)"
    by blast
  from k pc have "k = 0 \<or> k = 1" by auto
  then have tk: "take k ([boot_entry, warn_entry] @ put_entries sched) = []
      \<or> take k ([boot_entry, warn_entry] @ put_entries sched) = [boot_entry]" by auto
  from s tk have "shown = [] \<or> shown = [boot_entry]" unfolding pc q by auto
  with cb c have one: "console (runner ?b) = []
    \<or> console (runner ?b) = console (display_log_entry boot_entry (runner flag_down))"
    by auto
  from w tk have "written = [] \<or> written = [boot_entry]" unfolding pc q by auto
  with tb t have two: "log_text (runner ?b) = log_header start_time new_runner
      \<or> log_text (runner ?b) = log_header start_time new_runner @ log_line boot_entry"
    by auto
  from one two show ?thesis by blast
qed

text \<open>
  C10. Stopping does not drain the queue, as the code has it. Once the running flag is
  down, whatever the threads do next, producers included: the flag stays down and the
  consumer takes at most one more entry from the queue, the one at its head, and only
  when it was already past its loop test. What is displayed from then on is nothing, or the one entry the consumer
  already held or so took; what goes to the log file is nothing, or the line of that
  same entry. So every other entry of the queue is never displayed and never written.
  And \<^verbatim>\<open>stop_logging\<close> runs its three statements to the end, closing the file, without
  a step of the consumer and without touching the queue.
\<close>

theorem C10_stop_leaves_queue:
  "(\<not> running (runner a) \<longrightarrow>
      \<not> running (runner (run_schedule sched a))
      \<and> (\<exists>k shown written.
            k \<le> gets_left (consumer a)
            \<and> log_queue (runner (run_schedule sched a)) = drop k (log_queue (runner a) @ put_entries sched)
            \<and> length (held_for_write (consumer a) @ take k (log_queue (runner a) @ put_entries sched)) \<le> 1
            \<and> (shown = []
                \<or> shown = held_for_display (consumer a) @ take k (log_queue (runner a) @ put_entries sched))
            \<and> console (runner (run_schedule sched a))
                = console (fold display_log_entry shown (runner a))
            \<and> (written = []
                \<or> written = held_for_write (consumer a) @ take k (log_queue (runner a) @ put_entries sched))
            \<and> log_text (runner (run_schedule sched a))
                = log_text (runner a) @ concat (map log_line written)))
   \<and> (stopper b = SClear \<longrightarrow>
        stopper (run_schedule [Stop, Stop, Stop] b) = SDone
        \<and> consumer (run_schedule [Stop, Stop, Stop] b) = consumer b
        \<and> log_queue (runner (run_schedule [Stop, Stop, Stop] b)) = log_queue (runner b)
        \<and> console (runner (run_schedule [Stop, Stop, Stop] b)) = console (runner b)
        \<and> \<not> running (runner (run_schedule [Stop, Stop, Stop] b))
        \<and> log_file (runner (run_schedule [Stop, Stop, Stop] b))
            = map_option file_close (log_file (runner b)))"
  using run_schedule_head_only [of a sched] stop_logging_runs_alone [of b] by blast

theorem C10_stop_leaves_queue_witness:
  "\<not> running (runner flag_down)
   \<and> consumer flag_down = CGet
   \<and> log_queue (runner flag_down) = [boot_entry, warn_entry]
   \<and> (\<exists>k shown written.
         k \<le> 1
         \<and> log_queue (runner (run_schedule [Consume, Consume, Consume, Consume] flag_down))
             = drop k [boot_entry, warn_entry]
         \<and> (shown = [] \<or> shown = take k [boot_entry, warn_entry])
         \<and> console (runner (run_schedule [Consume, Consume, Consume, Consume] flag_down))
             = console (fold display_log_entry shown (runner flag_down))
         \<and> (written = [] \<or> written = take k [boot_entry, warn_entry])
         \<and> log_text (runner (run_schedule [Consume, Consume, Consume, Consume] flag_down))
             = log_text (runner flag_down) @ concat (map log_line written))
   \<and> stopper started = SClear
   \<and> stopper (run_schedule [Stop, Stop, Stop] started) = SDone
   \<and> consumer (run_schedule [Stop, Stop, Stop] started) = consumer started"
proof -
  let ?s = "[Consume, Consume, Consume, Consume]"
  let ?b = "run_schedule ?s flag_down"
  have down: "\<not> running (runner flag_down)" and pc: "consumer flag_down = CGet"
    and q: "log_queue (runner flag_down) = [boot_entry, warn_entry]"
    by (simp_all add: aggregator_eval)
  have s: "stopper started = SClear" by (simp add: started_def)
  have p: "log_queue (runner flag_down) @ put_entries ?s = [boot_entry, warn_entry]"
    by (simp add: q)
  have g: "gets_left (consumer flag_down) = 1"
    and hd: "held_for_display (consumer flag_down) = []"
    and hw: "held_for_write (consumer flag_down) = []"
    by (simp_all add: pc)
  note inst = C10_stop_leaves_queue [where a = flag_down and b = started and sched = ?s]
  from inst down obtain k shown written where
      "k \<le> gets_left (consumer flag_down)"
      "log_queue (runner ?b) = drop k (log_queue (runner flag_down) @ put_entries ?s)"
      "shown = [] \<or> shown = held_for_display (consumer flag_down)
                   @ take k (log_queue (runner flag_down) @ put_entries ?s)"
      "console (runner ?b) = console (fold display_log_entry shown (runner flag_down))"
      "written = [] \<or> written = held_for_write (consumer flag_down)
                   @ take k (log_queue (runner flag_down) @ put_entries ?s)"
      "log_text (runner ?b) = log_text (runner flag_down) @ concat (map log_line written)"
    by blast
  then have "k \<le> 1
         \<and> log_queue (runner ?b) = drop k [boot_entry, warn_entry]
         \<and> (shown = [] \<or> shown = take k [boot_entry, warn_entry])
         \<and> console (runner ?b) = console (fold display_log_entry shown (runner flag_down))
         \<and> (written = [] \<or> written = take k [boot_entry, warn_entry])
         \<and> log_text (runner ?b) = log_text (runner flag_down) @ concat (map log_line written)"
    unfolding p g hd hw append_Nil by blast
  then have a: "\<exists>k shown written.
         k \<le> 1
         \<and> log_queue (runner ?b) = drop k [boot_entry, warn_entry]
         \<and> (shown = [] \<or> shown = take k [boot_entry, warn_entry])
         \<and> console (runner ?b) = console (fold display_log_entry shown (runner flag_down))
         \<and> (written = [] \<or> written = take k [boot_entry, warn_entry])
         \<and> log_text (runner ?b) = log_text (runner flag_down) @ concat (map log_line written)"
    by blast
  from inst s have b: "stopper (run_schedule [Stop, Stop, Stop] started) = SDone
   \<and> consumer (run_schedule [Stop, Stop, Stop] started) = consumer started"
    by blast
  from down pc q a s b show ?thesis by blast
qed

theorem C10_head_entry_shown_counterexample:
  "\<not> running (runner flag_down)
   \<and> log_queue (runner flag_down) = [boot_entry, warn_entry]
   \<and> console (runner flag_down) = []
   \<and> log_text (runner flag_down) = log_header start_time new_runner
   \<and> map text_of (console (runner (run_schedule [Consume, Consume, Consume, Consume] flag_down)))
       = [message boot_entry]
   \<and> log_text (runner (run_schedule [Consume, Consume, Consume, Consume] flag_down))
       = log_header start_time new_runner @ log_line boot_entry"
proof -
  have l: "log_line boot_entry
      = ''2025-01-02T03:04:05.006789 [ CLIENT]  TEST: Starting test'' @ [newline]"
    by (simp add: log_line_def isoformat_def zfill_def str_nat.simps digit_char_def rjust_def
        boot_entry_def replicate_small)
  show ?thesis
    unfolding l
    by (simp add: aggregator_eval log_line_def isoformat_def zfill_def str_nat.simps
        digit_char_def rjust_def replicate_small)
qed

end
